theory Spec2Isabelle
  imports Main
begin

section \<open>Python values, errors and indexing\<close>

text \<open>
  The plugin is Python 2 code running inside the editor. Exceptions that the modelled
  code can raise are values: \<open>IndexError\<close> from \<^verbatim>\<open>fileLines[errorLine]\<close>, and
  \<open>TypeError\<close> from handing \<^verbatim>\<open>None\<close> (or a non-string) to \<^verbatim>\<open>re.search\<close> or to string
  concatenation.
\<close>

datatype py_error = IndexError | TypeError

text \<open>
  \<^verbatim>\<open>xs[i]\<close> on a Python list: indices \<open>0 .. len-1\<close> count from the front, indices
  \<open>-len .. -1\<close> count from the back, anything else raises \<open>IndexError\<close>.
\<close>

definition py_index :: "'a list \<Rightarrow> int \<Rightarrow> py_error + 'a" where
  "py_index xs i =
     (if 0 \<le> i \<and> i < int (length xs) then Inr (xs ! nat i)
      else if i < 0 \<and> - int (length xs) \<le> i then Inr (xs ! nat (int (length xs) + i))
      else Inl IndexError)"

text \<open>
  Values a settings object can hold (JSON scalars; floats, lists and objects are not
  used by the plugin's own keys and are left out of the model).
\<close>

datatype setting_value = SNone | SBool bool | SInt int | SStr string

text \<open>
  \<^verbatim>\<open>value == n\<close> for an integer literal \<open>n\<close>: Python's \<^verbatim>\<open>True\<close> and \<^verbatim>\<open>False\<close> are
  the integers 1 and 0, a string or \<^verbatim>\<open>None\<close> never equals an integer.
\<close>

fun py_eq_int :: "setting_value \<Rightarrow> int \<Rightarrow> bool" where
  "py_eq_int (SInt i) n = (i = n)"
| "py_eq_int (SBool b) n = ((if b then 1 else 0) = n)"
| "py_eq_int (SStr s) n = False"
| "py_eq_int SNone n = False"

section \<open>Regular expressions used by the plugin\<close>

text \<open>Characters the patterns mention.\<close>

definition newline :: char where
  "newline = CHR 0x0A"

definition quote :: char where
  "quote = CHR 0x27"

text \<open>\<^verbatim>\<open>\d\<close> on a byte string (no \<^verbatim>\<open>re.UNICODE\<close>, no \<^verbatim>\<open>re.LOCALE\<close>): the ten ASCII digits.\<close>

definition isdigit :: "char \<Rightarrow> bool" where
  "isdigit c = (c \<in> set ''0123456789'')"

definition digit_value :: "char \<Rightarrow> int" where
  "digit_value c = int (of_char c) - 48"

text \<open>\<^verbatim>\<open>int(s)\<close> for a string of decimal digits; Python integers are unbounded.\<close>

definition py_int :: "string \<Rightarrow> int" where
  "py_int s = foldl (\<lambda>n c. 10 * n + digit_value c) 0 s"

text \<open>
  Case folding of \<^verbatim>\<open>re.IGNORECASE\<close> on a byte string: only the ASCII letters
  \<open>A .. Z\<close> are mapped to lower case.
\<close>

definition ascii_lower :: "char \<Rightarrow> char" where
  "ascii_lower c =
     (case map_of (zip ''ABCDEFGHIJKLMNOPQRSTUVWXYZ'' ''abcdefghijklmnopqrstuvwxyz'') c of
        Some l \<Rightarrow> l
      | None \<Rightarrow> c)"

text \<open>A literal pattern matched at the current position; the rest of the subject is returned.\<close>

fun match_literal :: "string \<Rightarrow> string \<Rightarrow> string option" where
  "match_literal [] s = Some s"
| "match_literal (p # ps) [] = None"
| "match_literal (p # ps) (c # cs) = (if p = c then match_literal ps cs else None)"

text \<open>
  \<^verbatim>\<open>re.search(lit, s)\<close> for a pattern without metacharacters: does \<open>lit\<close> occur
  somewhere in \<open>s\<close>?
\<close>

fun re_search_literal :: "string \<Rightarrow> string \<Rightarrow> bool" where
  "re_search_literal lit [] = (lit = [])"
| "re_search_literal lit (c # cs) =
     (match_literal lit (c # cs) \<noteq> None \<or> re_search_literal lit cs)"

text \<open>
  \<^verbatim>\<open>re.search(lit, s, flags=re.IGNORECASE)\<close> for a lower-case literal: the subject is
  folded to lower case and searched.
\<close>

definition re_search_ignorecase :: "string \<Rightarrow> string \<Rightarrow> bool" where
  "re_search_ignorecase lit s = re_search_literal lit (map ascii_lower s)"

text \<open>
  \<^verbatim>\<open>errorPattern = re.compile("ERROR: 0:(\d+): '([^\']*)' : (.*)")\<close> applied with
  \<^verbatim>\<open>.match\<close>, that is anchored at the start of the line and free at its end. Each
  quantifier is followed by a character it cannot itself consume (\<^verbatim>\<open>\d+\<close> by a colon,
  \<^verbatim>\<open>[^']*\<close> by a quote) or by the end of the pattern, so the greedy match is the only
  one and backtracking never changes a group: group 1 is the maximal run of digits,
  group 2 everything up to the next quote, group 3 everything up to the next newline
  (\<^verbatim>\<open>.\<close> does not match a newline). The result is the triple of groups.
\<close>

definition errorPattern_match :: "string \<Rightarrow> (string \<times> string \<times> string) option" where
  "errorPattern_match e =
     (case match_literal ''ERROR: 0:'' e of
        None \<Rightarrow> None
      | Some s1 \<Rightarrow>
          (if takeWhile isdigit s1 = [] then None
           else
             (case match_literal [CHR '':'', CHR '' '', quote] (dropWhile isdigit s1) of
                None \<Rightarrow> None
              | Some s2 \<Rightarrow>
                  (case match_literal [quote, CHR '' '', CHR '':'', CHR '' '']
                          (dropWhile (\<lambda>c. c \<noteq> quote) s2) of
                     None \<Rightarrow> None
                   | Some s3 \<Rightarrow>
                       Some (takeWhile isdigit s1,
                             takeWhile (\<lambda>c. c \<noteq> quote) s2,
                             takeWhile (\<lambda>c. c \<noteq> newline) s3)))))"

section \<open>The editor: regions, views and the calls the plugin makes on them\<close>

text \<open>
  \<^verbatim>\<open>sublime.Region(a, b)\<close>: a pair of character offsets, not necessarily ordered;
  \<^verbatim>\<open>begin()\<close> is the smaller and \<^verbatim>\<open>end()\<close> the larger one. \<^verbatim>\<open>r.contains(s)\<close> for a
  region \<open>s\<close> holds when both ends of \<open>s\<close> lie in \<open>r\<close>; both bounds of \<open>r\<close> are
  included.
\<close>

datatype Region = Region (region_a: int) (region_b: int)

definition region_begin :: "Region \<Rightarrow> int" where
  "region_begin r = min (region_a r) (region_b r)"

definition region_end :: "Region \<Rightarrow> int" where
  "region_end r = max (region_a r) (region_b r)"

definition contains_point :: "Region \<Rightarrow> int \<Rightarrow> bool" where
  "contains_point r x = (region_begin r \<le> x \<and> x \<le> region_end r)"

definition region_contains :: "Region \<Rightarrow> Region \<Rightarrow> bool" where
  "region_contains r s = (contains_point r (region_a s) \<and> contains_point r (region_b s))"

text \<open>
  What the plugin reads and writes of a \<^verbatim>\<open>sublime.View\<close>: the buffer, the file name
  (\<^verbatim>\<open>None\<close> for a buffer never saved), the settings, the selection, and the two keyed
  stores it writes, status texts and region sets.
\<close>

record view =
  buffer :: string
  file_name :: "string option"
  settings :: "string \<Rightarrow> setting_value"
  sel :: "Region list"
  status :: "string \<Rightarrow> string option"
  regions :: "string \<Rightarrow> Region list option"

definition settings_set :: "string \<Rightarrow> setting_value \<Rightarrow> view \<Rightarrow> view" where
  "settings_set k x v = v\<lparr>settings := (settings v)(k := x)\<rparr>"

definition set_status :: "string \<Rightarrow> string \<Rightarrow> view \<Rightarrow> view" where
  "set_status k t v = v\<lparr>status := (status v)(k \<mapsto> t)\<rparr>"

definition erase_status :: "string \<Rightarrow> view \<Rightarrow> view" where
  "erase_status k v = v\<lparr>status := (status v)(k := None)\<rparr>"

definition add_regions :: "string \<Rightarrow> Region list \<Rightarrow> view \<Rightarrow> view" where
  "add_regions k rs v = v\<lparr>regions := (regions v)(k \<mapsto> rs)\<rparr>"

definition erase_regions :: "string \<Rightarrow> view \<Rightarrow> view" where
  "erase_regions k v = v\<lparr>regions := (regions v)(k := None)\<rparr>"

text \<open>
  \<^verbatim>\<open>view.lines(sublime.Region(0, view.size()))\<close>: the regions of all lines of the buffer,
  in order, each without its newline. \<open>lines_from s p cs\<close> scans the rest \<open>cs\<close> of the
  buffer at offset \<open>p\<close>, the current line having started at \<open>s\<close>. A buffer always has
  a last line, possibly empty.
\<close>

fun lines_from :: "nat \<Rightarrow> nat \<Rightarrow> string \<Rightarrow> Region list" where
  "lines_from s p [] = [Region (int s) (int p)]"
| "lines_from s p (c # cs) =
     (if c = newline then Region (int s) (int p) # lines_from (Suc p) (Suc p) cs
      else lines_from s (Suc p) cs)"

definition view_lines :: "view \<Rightarrow> Region list" where
  "view_lines v = lines_from 0 0 (buffer v)"

text \<open>
  \<^verbatim>\<open>view.find(pattern, fromPosition, sublime.LITERAL)\<close>: the region of the first
  occurrence of the literal text at or after \<open>fromPosition\<close>, or \<^verbatim>\<open>None\<close>.
  \<open>find_from pat i cs\<close> searches the rest \<open>cs\<close> of the buffer, which starts at offset
  \<open>i\<close>. The plugin only searches for non-empty text.
\<close>

fun find_from :: "string \<Rightarrow> nat \<Rightarrow> string \<Rightarrow> nat option" where
  "find_from pat i [] = None"
| "find_from pat i (c # cs) =
     (if match_literal pat (c # cs) \<noteq> None then Some i else find_from pat (Suc i) cs)"

definition view_find :: "view \<Rightarrow> string \<Rightarrow> int \<Rightarrow> Region option" where
  "view_find v pat fromPosition =
     (case find_from pat (nat fromPosition) (drop (nat fromPosition) (buffer v)) of
        None \<Rightarrow> None
      | Some i \<Rightarrow> Some (Region (int i) (int i + int (length pat))))"

section \<open>The environment: platform, settings file and the compiler process\<close>

datatype platform = OSX | Linux | Windows

record popen_args =
  args :: string
  cwd :: string
  stdout_pipe :: bool
  stderr_to_stdout :: bool
  shell :: bool

text \<open>
  What the plugin does to the world outside the view: it starts the compiler
  (\<^verbatim>\<open>subprocess.Popen\<close>) and it raises a modal alert (\<^verbatim>\<open>sublime.error_message\<close>).
  Handlers return the list of these effects in the order they happened.
\<close>

datatype effect = Popen popen_args | ErrorMessage string

text \<open>
  The environment answers what the code asks of it: \<^verbatim>\<open>sublime.platform()\<close>,
  \<^verbatim>\<open>sublime.packages_path()\<close>, the contents of a settings file
  (\<^verbatim>\<open>sublime.load_settings\<close>), and what the started process writes to its output pipe
  (\<open>None\<close> stands for a process object without \<^verbatim>\<open>stdout\<close>).
\<close>

record env =
  platform_of :: platform
  packages_path :: string
  load_settings :: "string \<Rightarrow> string \<Rightarrow> setting_value"
  run_process :: "popen_args \<Rightarrow> string option"

text \<open>
  \<^verbatim>\<open>file.readlines()\<close>: the output cut after every newline, each line keeping its
  newline; a last line without newline is kept as it is.
\<close>

fun readlines :: "string \<Rightarrow> string list" where
  "readlines [] = []"
| "readlines (c # cs) =
     (if c = newline then [c] # readlines cs
      else (case readlines cs of [] \<Rightarrow> [[c]] | l # ls \<Rightarrow> (c # l) # ls))"

section \<open>ANGLECommandLine\<close>

record GLShaderError =
  region :: Region
  message :: string

fun ANGLEPath :: "platform \<Rightarrow> string" where
  "ANGLEPath OSX = ''./essl_to_glsl''"
| "ANGLEPath Linux = ''./essl_to_glsl''"
| "ANGLEPath Windows = ''./essl_to_glsl.exe''"

text \<open>
  \<^verbatim>\<open>specCmd\<close>: the switch \<^verbatim>\<open>-s=w\<close>, dropped when the view's setting \<^verbatim>\<open>glsv_spec\<close>
  equals 1.
\<close>

definition specCmd :: "view \<Rightarrow> string" where
  "specCmd v = (if py_eq_int (settings v ''glsv_spec'') 1 then [] else ''-s=w'')"

text \<open>The arguments of the \<^verbatim>\<open>Popen\<close> call for a view whose file name is \<open>f\<close>.\<close>

definition popen_call :: "env \<Rightarrow> view \<Rightarrow> string \<Rightarrow> popen_args" where
  "popen_call ev v f =
     \<lparr>args = ANGLEPath (platform_of ev) @ '' '' @ specCmd v @ '' '' @ f,
      cwd = packages_path ev @ ''/GLShaderValidator/'',
      stdout_pipe = True,
      stderr_to_stdout = True,
      shell = True\<rparr>"

text \<open>
  The three assignments after a successful match: \<^verbatim>\<open>errorLine\<close>, \<^verbatim>\<open>errorToken\<close>,
  \<^verbatim>\<open>errorDescription\<close>.
\<close>

definition error_details :: "string \<Rightarrow> (int \<times> string \<times> string) option" where
  "error_details e =
     (case errorPattern_match e of
        None \<Rightarrow> None
      | Some (g1, g2, g3) \<Rightarrow> Some (py_int g1 - 1, g2, g3))"

text \<open>
  "If there is a token try and locate it": the search starts at the beginning of the
  line's region and replaces the region only when it finds the token.
\<close>

definition locate_token :: "view \<Rightarrow> string \<Rightarrow> Region \<Rightarrow> Region" where
  "locate_token v errorToken errorLocation =
     (if length errorToken > 0 then
        (case view_find v errorToken (region_begin errorLocation) of
           Some betterLocation \<Rightarrow> betterLocation
         | None \<Rightarrow> errorLocation)
      else errorLocation)"

text \<open>
  One turn of the loop over the output lines. The turn either leaves the function with
  the alert (\<open>PermissionDenied\<close>), appends nothing (\<open>NoDiagnostic\<close>: a comment line or a
  line the pattern does not match), raises (\<open>Failed\<close>), or appends one error object.
\<close>

datatype line_result =
  PermissionDenied | NoDiagnostic | Failed py_error | Diagnostic GLShaderError

definition parse_line :: "view \<Rightarrow> Region list \<Rightarrow> string \<Rightarrow> line_result" where
  "parse_line v fileLines e =
     (if re_search_ignorecase ''permission denied'' e then PermissionDenied
      else if match_literal ''####'' e \<noteq> None then NoDiagnostic
      else
        (case error_details e of
           None \<Rightarrow> NoDiagnostic
         | Some (errorLine, errorToken, errorDescription) \<Rightarrow>
             (case py_index fileLines errorLine of
                Inl x \<Rightarrow> Failed x
              | Inr errorLocation \<Rightarrow>
                  Diagnostic \<lparr>region = locate_token v errorToken errorLocation,
                              message = errorDescription\<rparr>)))"

definition permission_alert :: string where
  "permission_alert = ''GLShaderValidator: permission denied to use essl_to_glsl command''"

fun parse_lines ::
  "view \<Rightarrow> Region list \<Rightarrow> GLShaderError list \<Rightarrow> string list
    \<Rightarrow> effect list \<times> (py_error + GLShaderError list)" where
  "parse_lines v fileLines errs [] = ([], Inr errs)"
| "parse_lines v fileLines errs (e # es) =
     (case parse_line v fileLines e of
        PermissionDenied \<Rightarrow> ([ErrorMessage permission_alert], Inr [])
      | NoDiagnostic \<Rightarrow> parse_lines v fileLines errs es
      | Failed x \<Rightarrow> ([], Inl x)
      | Diagnostic d \<Rightarrow> parse_lines v fileLines (errs @ [d]) es)"

text \<open>
  \<^verbatim>\<open>validate_contents\<close>: the effects in order, and either the exception that ended the
  call or the list it returns. Building the command line from a missing file name
  raises before the process is started.
\<close>

definition validate_contents ::
  "env \<Rightarrow> view \<Rightarrow> effect list \<times> (py_error + GLShaderError list)" where
  "validate_contents ev v =
     (case file_name v of
        None \<Rightarrow> ([], Inl TypeError)
      | Some f \<Rightarrow>
          (case run_process ev (popen_call ev v f) of
             None \<Rightarrow> ([Popen (popen_call ev v f)], Inr [])
           | Some out \<Rightarrow>
               (case parse_lines v (view_lines v) [] (readlines out) of
                  (tr, r) \<Rightarrow> (Popen (popen_call ev v f) # tr, r))))"

section \<open>GLShaderValidatorCommand\<close>

text \<open>
  The editor creates one listener object for all views. Its attributes are the state
  that survives between events: \<^verbatim>\<open>errors\<close> (\<^verbatim>\<open>None\<close> until the first validation) and
  the lazily loaded \<^verbatim>\<open>pluginSettings\<close>.
\<close>

record plugin =
  errors :: "GLShaderError list option"
  pluginSettings :: "(string \<Rightarrow> setting_value) option"

definition DEFAULT_SETTINGS :: "(string \<times> setting_value) list" where
  "DEFAULT_SETTINGS = [(''glsv_enabled'', SInt 1), (''glsv_spec'', SInt 0)]"

definition status_key :: string where
  "status_key = ''glshadervalidator''"

definition regions_key :: string where
  "regions_key = ''glshadervalidate_errors''"

definition suffix_message :: string where
  "suffix_message = ''File name must end in .frag or .vert''"

text \<open>
  \<^verbatim>\<open>apply_settings\<close>: load the plugin's settings once, and configure a view that has no
  \<^verbatim>\<open>glsv_configured\<close> yet with each default, overridden by the plugin's settings file
  where that has a value.
\<close>

definition apply_settings :: "env \<Rightarrow> view \<Rightarrow> plugin \<Rightarrow> view \<times> plugin" where
  "apply_settings ev v p =
     (let ps = (case pluginSettings p of
                  None \<Rightarrow> load_settings ev ''GLShaderValidator.sublime-settings''
                | Some loaded \<Rightarrow> loaded)
      in ((if settings v ''glsv_configured'' = SNone then
             fold (\<lambda>(setting, settingValue) w.
                     settings_set setting
                       (if ps setting \<noteq> SNone then ps setting else settingValue) w)
               DEFAULT_SETTINGS
               (settings_set ''glsv_configured'' (SBool True) v)
           else v),
          p\<lparr>pluginSettings := Some ps\<rparr>))"

definition clear_errors :: "view \<Rightarrow> view" where
  "clear_errors v = erase_regions regions_key v"

text \<open>
  \<^verbatim>\<open>is_glsl_or_essl\<close>: the \<^verbatim>\<open>syntax\<close> setting mentions GLSL or ESSL, in any case.
  \<^verbatim>\<open>re.search\<close> raises \<open>TypeError\<close> on a value that is neither a string nor \<^verbatim>\<open>None\<close>.
\<close>

definition is_glsl_or_essl :: "view \<Rightarrow> py_error + bool" where
  "is_glsl_or_essl v =
     (case settings v ''syntax'' of
        SNone \<Rightarrow> Inr False
      | SStr syntax \<Rightarrow>
          Inr (re_search_ignorecase ''glsl'' syntax \<or> re_search_ignorecase ''essl'' syntax)
      | SBool b \<Rightarrow> Inl TypeError
      | SInt i \<Rightarrow> Inl TypeError)"

text \<open>
  \<^verbatim>\<open>re.search('(frag|vert)$', name)\<close>: \<^verbatim>\<open>$\<close> matches at the end of the string and
  also just before a newline that ends the string. \<open>ends_with suf s\<close> is a match of the
  literal \<open>suf\<close> that reaches the end of \<open>s\<close>.
\<close>

fun ends_with :: "string \<Rightarrow> string \<Rightarrow> bool" where
  "ends_with suf [] = (suf = [])"
| "ends_with suf (c # cs) = (match_literal suf (c # cs) = Some [] \<or> ends_with suf cs)"

definition search_frag_vert :: "string \<Rightarrow> bool" where
  "search_frag_vert name =
     (ends_with ''frag'' name \<or> ends_with ''vert'' name \<or>
      ends_with (''frag'' @ [newline]) name \<or> ends_with (''vert'' @ [newline]) name)"

definition is_valid_file_ending :: "view \<Rightarrow> py_error + bool" where
  "is_valid_file_ending v =
     (case file_name v of
        None \<Rightarrow> Inl TypeError
      | Some name \<Rightarrow> Inr (search_frag_vert name))"

definition show_errors :: "GLShaderError list \<Rightarrow> view \<Rightarrow> view" where
  "show_errors errs v = add_regions regions_key (map region errs) v"

text \<open>
  The two loops of \<^verbatim>\<open>on_selection_modified\<close>: for each selection in turn, the first
  stored error whose region contains it decides the status text, and the handler
  returns.
\<close>

fun covering_message :: "GLShaderError list \<Rightarrow> Region list \<Rightarrow> string option" where
  "covering_message errs [] = None"
| "covering_message errs (s # ss) =
     (case find (\<lambda>error. region_contains (region error) s) errs of
        Some error \<Rightarrow> Some (message error)
      | None \<Rightarrow> covering_message errs ss)"

text \<open>
  A handler's outcome: the view and the listener object as it leaves them, the effects,
  and the exception that ended it, if any.
\<close>

record outcome =
  view_after :: view
  plugin_after :: plugin
  trace :: "effect list"
  raised :: "py_error option"

definition on_selection_modified :: "view \<Rightarrow> plugin \<Rightarrow> outcome" where
  "on_selection_modified v p =
     (let v1 = erase_status status_key v in
      case is_glsl_or_essl v1 of
        Inl x \<Rightarrow> \<lparr>view_after = v1, plugin_after = p, trace = [], raised = Some x\<rparr>
      | Inr isShader \<Rightarrow>
          (if \<not> isShader then
             \<lparr>view_after = v1, plugin_after = p, trace = [], raised = None\<rparr>
           else
             (case errors p of
                None \<Rightarrow> \<lparr>view_after = v1, plugin_after = p, trace = [], raised = None\<rparr>
              | Some errs \<Rightarrow>
                  (case covering_message errs (sel v1) of
                     Some m \<Rightarrow>
                       \<lparr>view_after = set_status status_key m v1, plugin_after = p,
                        trace = [], raised = None\<rparr>
                   | None \<Rightarrow>
                       \<lparr>view_after = v1, plugin_after = p, trace = [], raised = None\<rparr>))))"

text \<open>
  \<^verbatim>\<open>run_validator\<close>. The statement \<^verbatim>\<open>self.clear_errors\<close> before the call of
  \<^verbatim>\<open>validate_contents\<close> names the method without calling it and does nothing.
\<close>

definition run_validator :: "env \<Rightarrow> view \<Rightarrow> plugin \<Rightarrow> outcome" where
  "run_validator ev v p =
     (case apply_settings ev (erase_status status_key v) p of
        (v2, p2) \<Rightarrow>
          (if py_eq_int (settings v2 ''glsv_enabled'') 0 then
             \<lparr>view_after = clear_errors v2, plugin_after = p2, trace = [], raised = None\<rparr>
           else
             (case is_glsl_or_essl v2 of
                Inl x \<Rightarrow> \<lparr>view_after = v2, plugin_after = p2, trace = [], raised = Some x\<rparr>
              | Inr isShader \<Rightarrow>
                  (if \<not> isShader then
                     \<lparr>view_after = v2, plugin_after = p2, trace = [], raised = None\<rparr>
                   else
                     (case is_valid_file_ending v2 of
                        Inl x \<Rightarrow>
                          \<lparr>view_after = v2, plugin_after = p2, trace = [], raised = Some x\<rparr>
                      | Inr isValidFileEnding \<Rightarrow>
                          (if isValidFileEnding then
                             (case validate_contents ev v2 of
                                (tr, Inl x) \<Rightarrow>
                                  \<lparr>view_after = v2, plugin_after = p2, trace = tr,
                                   raised = Some x\<rparr>
                              | (tr, Inr errs) \<Rightarrow>
                                  \<lparr>view_after = show_errors errs v2,
                                   plugin_after = p2\<lparr>errors := Some errs\<rparr>,
                                   trace = tr, raised = None\<rparr>)
                           else
                             \<lparr>view_after = set_status status_key suffix_message v2,
                              plugin_after = p2, trace = [], raised = None\<rparr>))))))"

text \<open>The three events that start a validation pass.\<close>

definition on_load :: "env \<Rightarrow> view \<Rightarrow> plugin \<Rightarrow> outcome" where
  "on_load = run_validator"

definition on_activated :: "env \<Rightarrow> view \<Rightarrow> plugin \<Rightarrow> outcome" where
  "on_activated = run_validator"

definition on_post_save :: "env \<Rightarrow> view \<Rightarrow> plugin \<Rightarrow> outcome" where
  "on_post_save = run_validator"

section \<open>Notation for the claims and inputs for the examples\<close>

text \<open>
  The textual shape \<^verbatim>\<open>ERROR: 0:N: 'T' : D\<close> of a diagnostic line, as a string built from
  the reported number \<open>N\<close> (its digits), the token \<open>T\<close> and the description \<open>D\<close>.
\<close>

definition diagnostic_line :: "string \<Rightarrow> string \<Rightarrow> string \<Rightarrow> string" where
  "diagnostic_line N T D =
     ''ERROR: 0:'' @ N @ [CHR '':'', CHR '' '', quote] @ T @
     [quote, CHR '' '', CHR '':'', CHR '' ''] @ D"

text \<open>
  The token \<open>tok\<close> stands in the buffer \<open>buf\<close> at offset \<open>p\<close>.
\<close>

definition occurs_at :: "string \<Rightarrow> string \<Rightarrow> nat \<Rightarrow> bool" where
  "occurs_at buf tok p = (take (length tok) (drop p buf) = tok)"

text \<open>
  Inputs of the examples: a view on a saved file with a given buffer, file name and
  syntax setting and nothing else set; an environment on Linux whose settings file is
  empty and whose compiler prints a given text; the listener object before any event.
\<close>

definition view_of :: "string \<Rightarrow> string \<Rightarrow> string \<Rightarrow> view" where
  "view_of buf name syntax =
     \<lparr>buffer = buf, file_name = Some name,
      settings = (\<lambda>k. if k = ''syntax'' then SStr syntax else SNone),
      sel = [], status = (\<lambda>k. None), regions = (\<lambda>k. None)\<rparr>"

definition compiler_printing :: "string \<Rightarrow> env" where
  "compiler_printing out =
     \<lparr>platform_of = Linux, packages_path = ''/Packages'',
      load_settings = (\<lambda>file k. SNone),
      run_process = (\<lambda>call. Some out)\<rparr>"

definition fresh_plugin :: plugin where
  "fresh_plugin = \<lparr>errors = None, pluginSettings = None\<rparr>"

text \<open>
  A three-line shader whose third line calls an undeclared \<^verbatim>\<open>foo\<close>, and the banner
  line the compiler prints before its diagnostics.
\<close>

definition shader_document :: string where
  "shader_document = ''// a'' @ [newline] @ ''// b'' @ [newline] @ ''void main(){ foo(); }''"

definition banner_line :: string where
  "banner_line = ''#### BEGIN COMPILER 0 INFO LOG ####'' @ [newline]"

section \<open>Basic facts\<close>

text \<open>Collections of defining equations, for evaluating the model on concrete inputs.\<close>

lemmas string_defs = diagnostic_line_def newline_def quote_def isdigit_def
lemmas search_defs = re_search_ignorecase_def ascii_lower_def
lemmas parse_defs = parse_line_def error_details_def errorPattern_match_def py_int_def
  digit_value_def py_index_def locate_token_def view_find_def view_lines_def region_begin_def
lemmas example_defs = view_of_def compiler_printing_def fresh_plugin_def shader_document_def
  banner_line_def


subsection \<open>Literal matching and the error pattern\<close>

lemma match_literal_iff: "match_literal p s = Some r \<longleftrightarrow> s = p @ r"
  by (induction p s rule: match_literal.induct) auto

lemma match_literal_append [simp]: "match_literal p (p @ r) = Some r"
  by (simp add: match_literal_iff)

lemma match_literal_None_iff: "match_literal p s = None \<longleftrightarrow> (\<forall>r. s \<noteq> p @ r)"
  by (metis match_literal_iff not_Some_eq)

lemma re_search_literal_iff:
  "re_search_literal lit s \<longleftrightarrow> (\<exists>pre post. s = pre @ lit @ post)"
proof (induction s)
  case Nil
  then show ?case by auto
next
  case (Cons c cs)
  have "(\<exists>pre post. c # cs = pre @ lit @ post) \<longleftrightarrow>
        (\<exists>post. c # cs = lit @ post) \<or> (\<exists>pre post. cs = pre @ lit @ post)"
    (is "?L \<longleftrightarrow> ?A \<or> ?B")
  proof
    assume ?L
    then obtain pre post where eq: "c # cs = pre @ lit @ post" by blast
    show "?A \<or> ?B"
    proof (cases pre)
      case Nil
      with eq show ?thesis by auto
    next
      case (Cons x xs)
      with eq show ?thesis by auto
    qed
  next
    assume "?A \<or> ?B"
    then show ?L
    proof
      assume ?A
      then show ?L by (metis append_Nil)
    next
      assume ?B
      then obtain pre post where "cs = pre @ lit @ post" by blast
      then have "c # cs = (c # pre) @ lit @ post" by simp
      then show ?L by blast
    qed
  qed
  moreover have "match_literal lit (c # cs) \<noteq> None \<longleftrightarrow> (\<exists>post. c # cs = lit @ post)"
    by (metis match_literal_iff not_Some_eq)
  ultimately show ?case using Cons.IH by simp
qed

lemma takeWhile_stop:
  "\<forall>c\<in>set xs. P c \<Longrightarrow> rest = [] \<or> \<not> P (hd rest) \<Longrightarrow> takeWhile P (xs @ rest) = xs"
  by (cases rest) (auto simp: takeWhile_append2 takeWhile_eq_all_conv)

lemma dropWhile_stop:
  "\<forall>c\<in>set xs. P c \<Longrightarrow> rest = [] \<or> \<not> P (hd rest) \<Longrightarrow> dropWhile P (xs @ rest) = rest"
  by (cases rest) (auto simp: dropWhile_append2)

lemma errorPattern_match_shape:
  assumes "N \<noteq> []" and "\<forall>c\<in>set N. isdigit c" and "quote \<notin> set T" and "newline \<notin> set D"
    and "rest = [] \<or> hd rest = newline"
  shows "errorPattern_match (''ERROR: 0:'' @ N @ [CHR '':'', CHR '' '', quote] @ T @
            [quote, CHR '' '', CHR '':'', CHR '' ''] @ D @ rest) = Some (N, T, D)"
proof -
  let ?s2 = "T @ [quote, CHR '' '', CHR '':'', CHR '' ''] @ D @ rest"
  let ?s1 = "N @ [CHR '':'', CHR '' '', quote] @ ?s2"
  have nd: "\<not> isdigit CHR '':''" by (simp add: isdigit_def)
  have t1: "takeWhile isdigit ?s1 = N"
    using assms(2) nd by (intro takeWhile_stop) auto
  have d1: "dropWhile isdigit ?s1 = [CHR '':'', CHR '' '', quote] @ ?s2"
    using assms(2) nd by (intro dropWhile_stop) auto
  have t2: "takeWhile (\<lambda>c. c \<noteq> quote) ?s2 = T"
    using assms(3) by (intro takeWhile_stop) auto
  have d2: "dropWhile (\<lambda>c. c \<noteq> quote) ?s2 = [quote, CHR '' '', CHR '':'', CHR '' ''] @ D @ rest"
    using assms(3) by (intro dropWhile_stop) auto
  have t3: "takeWhile (\<lambda>c. c \<noteq> newline) (D @ rest) = D"
    using assms(4,5) by (intro takeWhile_stop) auto
  have m0: "match_literal ''ERROR: 0:'' (''ERROR: 0:'' @ ?s1) = Some ?s1"
    by (rule match_literal_append)
  have m1: "match_literal [CHR '':'', CHR '' '', quote] ([CHR '':'', CHR '' '', quote] @ ?s2) = Some ?s2"
    by (rule match_literal_append)
  have m2: "match_literal [quote, CHR '' '', CHR '':'', CHR '' ''] ([quote, CHR '' '', CHR '':'', CHR '' ''] @ D @ rest) = Some (D @ rest)"
    by (rule match_literal_append)
  show ?thesis
    unfolding errorPattern_match_def m0 option.case t1 d1 m1 d2 t2 m2 t3
    using assms(1) by simp
qed

lemma errorPattern_match_SomeD:
  assumes "errorPattern_match e = Some (N, T, D)"
  shows "N \<noteq> [] \<and> (\<forall>c\<in>set N. isdigit c) \<and> quote \<notin> set T \<and> newline \<notin> set D \<and>
     (\<exists>rest. (rest = [] \<or> hd rest = newline) \<and>
        e = ''ERROR: 0:'' @ N @ [CHR '':'', CHR '' '', quote] @ T @
            [quote, CHR '' '', CHR '':'', CHR '' ''] @ D @ rest)"
proof -
  from assms obtain s1 where m0: "match_literal ''ERROR: 0:'' e = Some s1"
    by (auto simp: errorPattern_match_def split: option.splits)
  from assms m0 have n: "takeWhile isdigit s1 \<noteq> []"
    by (auto simp: errorPattern_match_def split: option.splits if_splits)
  from assms m0 n obtain s2 where m1: "match_literal [CHR '':'', CHR '' '', quote] (dropWhile isdigit s1) = Some s2"
    by (auto simp: errorPattern_match_def split: option.splits if_splits)
  from assms m0 n m1 obtain s3 where m2: "match_literal [quote, CHR '' '', CHR '':'', CHR '' ''] (dropWhile (\<lambda>c. c \<noteq> quote) s2) = Some s3"
    by (auto simp: errorPattern_match_def split: option.splits if_splits)
  from assms m0 n m1 m2 have g: "N = takeWhile isdigit s1" "T = takeWhile (\<lambda>c. c \<noteq> quote) s2"
      "D = takeWhile (\<lambda>c. c \<noteq> newline) s3"
    by (auto simp: errorPattern_match_def split: option.splits if_splits)
  have e0: "e = ''ERROR: 0:'' @ s1" using m0 by (simp add: match_literal_iff)
  have e1: "s1 = N @ [CHR '':'', CHR '' '', quote] @ s2"
    using m1 g(1) by (metis match_literal_iff takeWhile_dropWhile_id)
  have e2: "s2 = T @ [quote, CHR '' '', CHR '':'', CHR '' ''] @ s3"
    using m2 g(2) by (metis match_literal_iff takeWhile_dropWhile_id)
  have e3: "s3 = D @ dropWhile (\<lambda>c. c \<noteq> newline) s3"
    using g(3) by simp
  have r: "dropWhile (\<lambda>c. c \<noteq> newline) s3 = [] \<or> hd (dropWhile (\<lambda>c. c \<noteq> newline) s3) = newline"
    using hd_dropWhile[of "\<lambda>c. c \<noteq> newline" s3] by auto
  have "\<forall>c\<in>set N. isdigit c" unfolding g(1) by (auto dest: set_takeWhileD)
  moreover have "quote \<notin> set T" unfolding g(2) by (auto dest: set_takeWhileD)
  moreover have "newline \<notin> set D" unfolding g(3) by (auto dest: set_takeWhileD)
  moreover have "e = ''ERROR: 0:'' @ N @ [CHR '':'', CHR '' '', quote] @ T @
            [quote, CHR '' '', CHR '':'', CHR '' ''] @ D @ dropWhile (\<lambda>c. c \<noteq> newline) s3"
    using e0 e1 e2 e3 by metis
  moreover have "N \<noteq> []" using n g(1) by simp
  ultimately show ?thesis using r by (intro conjI exI[of _ "dropWhile (\<lambda>c. c \<noteq> newline) s3"]) assumption+
qed

subsection \<open>Indexing\<close>

lemma py_index_Inr_iff:
  "(\<exists>x. py_index xs i = Inr x) \<longleftrightarrow> - int (length xs) \<le> i \<and> i < int (length xs)"
  by (auto simp: py_index_def)

lemma py_index_outside:
  "\<not> (- int (length xs) \<le> i \<and> i < int (length xs)) \<Longrightarrow> py_index xs i = Inl IndexError"
  by (auto simp: py_index_def)

lemma py_index_error: "py_index xs i = Inl x \<Longrightarrow> x = IndexError"
  by (auto simp: py_index_def split: if_splits)

lemma py_index_minus_one: "xs \<noteq> [] \<Longrightarrow> py_index xs (- 1) = Inr (last xs)"
proof (cases xs)
  case Nil
  assume "xs \<noteq> []"
  with Nil show ?thesis by simp
next
  case (Cons y ys)
  have "last (y # ys) = (y # ys) ! length ys"
    by (simp add: last_conv_nth)
  then show ?thesis unfolding Cons by (simp add: py_index_def)
qed

subsection \<open>Lines and literal search in the buffer\<close>

lemma lines_from_nonempty: "lines_from s p cs \<noteq> []"
  by (induction cs arbitrary: s p) auto

lemma view_lines_nonempty: "view_lines v \<noteq> []"
  by (simp add: view_lines_def lines_from_nonempty)

lemma match_literal_take: "match_literal pat s \<noteq> None \<longleftrightarrow> take (length pat) s = pat"
proof
  assume "match_literal pat s \<noteq> None"
  then obtain r where "s = pat @ r" by (auto simp: match_literal_iff)
  then show "take (length pat) s = pat" by simp
next
  assume "take (length pat) s = pat"
  then have "s = pat @ drop (length pat) s" by (metis append_take_drop_id)
  then show "match_literal pat s \<noteq> None" by (metis match_literal_append option.distinct(1))
qed

lemma find_from_Some:
  "find_from pat i cs = Some j \<Longrightarrow>
     i \<le> j \<and> take (length pat) (drop (j - i) cs) = pat \<and>
     (\<forall>k. i \<le> k \<and> k < j \<longrightarrow> take (length pat) (drop (k - i) cs) \<noteq> pat)"
proof (induction cs arbitrary: i)
  case Nil
  then show ?case by simp
next
  case (Cons c cs)
  show ?case
  proof (cases "match_literal pat (c # cs) \<noteq> None")
    case True
    with Cons.prems have "j = i" by simp
    moreover from True have "take (length pat) (c # cs) = pat"
      by (simp only: match_literal_take)
    ultimately show ?thesis by simp
  next
    case False
    with Cons.prems have f: "find_from pat (Suc i) cs = Some j" by simp
    from Cons.IH[OF f] have ih: "Suc i \<le> j" "take (length pat) (drop (j - Suc i) cs) = pat"
      "\<forall>k. Suc i \<le> k \<and> k < j \<longrightarrow> take (length pat) (drop (k - Suc i) cs) \<noteq> pat"
      by auto
    have a: "drop (j - i) (c # cs) = drop (j - Suc i) cs"
      using ih(1) by (metis Suc_diff_Suc Suc_le_lessD drop_Suc_Cons)
    have b: "take (length pat) (drop (k - i) (c # cs)) \<noteq> pat" if "i \<le> k" "k < j" for k
    proof (cases "k = i")
      case True
      with False show ?thesis using match_literal_take[of pat "c # cs"] by simp
    next
      case False
      with that have "Suc i \<le> k" by simp
      then have "drop (k - i) (c # cs) = drop (k - Suc i) cs"
        by (metis Suc_diff_Suc Suc_le_lessD drop_Suc_Cons)
      with ih(3) \<open>Suc i \<le> k\<close> that(2) show ?thesis by simp
    qed
    from ih(1) a ih(2) b show ?thesis by auto
  qed
qed

lemma find_from_None:
  "pat \<noteq> [] \<Longrightarrow> find_from pat i cs = None \<Longrightarrow> take (length pat) (drop k cs) \<noteq> pat"
proof (induction cs arbitrary: i k)
  case Nil
  then show ?case by auto
next
  case (Cons c cs)
  from Cons.prems(2) have nm: "match_literal pat (c # cs) = None"
    and f: "find_from pat (Suc i) cs = None"
    by (auto split: if_splits)
  show ?case
  proof (cases k)
    case 0
    with nm show ?thesis using match_literal_take[of pat "c # cs"] by simp
  next
    case (Suc k')
    with Cons.IH[OF Cons.prems(1) f, of k'] show ?thesis by simp
  qed
qed

lemma view_find_Some:
  assumes "view_find v tok start = Some r"
  shows "\<exists>p. r = Region (int p) (int p + int (length tok)) \<and> start \<le> int p \<and>
           occurs_at (buffer v) tok p \<and>
           (\<forall>q. start \<le> int q \<and> q < p \<longrightarrow> \<not> occurs_at (buffer v) tok q)"
proof -
  from assms obtain j where f: "find_from tok (nat start) (drop (nat start) (buffer v)) = Some j"
    and r: "r = Region (int j) (int j + int (length tok))"
    by (auto simp: view_find_def split: option.splits)
  from find_from_Some[OF f] have le: "nat start \<le> j"
    and occ: "take (length tok) (drop (j - nat start) (drop (nat start) (buffer v))) = tok"
    and first: "\<forall>k. nat start \<le> k \<and> k < j \<longrightarrow>
        take (length tok) (drop (k - nat start) (drop (nat start) (buffer v))) \<noteq> tok"
    by auto
  have "occurs_at (buffer v) tok j" using occ le by (simp add: occurs_at_def)
  moreover have "\<not> occurs_at (buffer v) tok q" if "start \<le> int q" "q < j" for q
  proof -
    from that have "nat start \<le> q" by simp
    with first that(2) show ?thesis by (simp add: occurs_at_def)
  qed
  moreover have "start \<le> int j" using le by simp
  ultimately show ?thesis using r by blast
qed

lemma view_find_None:
  assumes "tok \<noteq> []" and "view_find v tok start = None" and "start \<le> int p"
  shows "\<not> occurs_at (buffer v) tok p"
proof -
  from assms(2) have f: "find_from tok (nat start) (drop (nat start) (buffer v)) = None"
    by (auto simp: view_find_def split: option.splits)
  from assms(3) have le: "nat start \<le> p" by simp
  from find_from_None[OF assms(1) f, of "p - nat start"] le
  show ?thesis by (simp add: occurs_at_def)
qed

subsection \<open>The loop over the output lines\<close>

lemma parse_line_Failed: "parse_line v fl e = Failed x \<Longrightarrow> x = IndexError"
  by (auto simp: parse_line_def split: if_splits option.splits sum.splits dest: py_index_error)

lemma parse_lines_reach_permission:
  assumes "parse_line v fl e = PermissionDenied"
    and "\<forall>e'\<in>set pre. \<forall>x. parse_line v fl e' \<noteq> Failed x"
  shows "parse_lines v fl errs (pre @ e # post) = ([ErrorMessage permission_alert], Inr [])"
  using assms(2)
proof (induction pre arbitrary: errs)
  case Nil
  then show ?case using assms(1) by simp
next
  case (Cons a pre)
  then show ?case by (cases "parse_line v fl a") auto
qed

lemma parse_lines_no_match:
  assumes "\<forall>e\<in>set es. errorPattern_match e = None"
  shows "parse_lines v fl errs es = ([], Inr errs) \<or>
         parse_lines v fl errs es = ([ErrorMessage permission_alert], Inr [])"
  using assms
proof (induction es)
  case Nil
  then show ?case by simp
next
  case (Cons e es)
  then have "parse_line v fl e = PermissionDenied \<or> parse_line v fl e = NoDiagnostic"
    by (auto simp: parse_line_def error_details_def)
  with Cons show ?case by auto
qed

lemma parse_lines_undisturbed:
  assumes "\<forall>e\<in>set es. parse_line v fl e \<noteq> PermissionDenied \<and> (\<forall>x. parse_line v fl e \<noteq> Failed x)"
  shows "\<exists>ds. parse_lines v fl errs es = ([], Inr (errs @ ds))"
  using assms
proof (induction es arbitrary: errs)
  case Nil
  then show ?case by simp
next
  case (Cons e es)
  show ?case
  proof (cases "parse_line v fl e")
    case PermissionDenied
    with Cons.prems show ?thesis by simp
  next
    case NoDiagnostic
    with Cons show ?thesis by simp
  next
    case (Failed x)
    with Cons.prems show ?thesis by simp
  next
    case (Diagnostic d)
    from Cons.IH[of "errs @ [d]"] Cons.prems obtain ds
      where "parse_lines v fl (errs @ [d]) es = ([], Inr ((errs @ [d]) @ ds))" by auto
    with Diagnostic show ?thesis by simp
  qed
qed

lemma parse_lines_split:
  assumes "\<forall>e\<in>set pre. parse_line v fl e \<noteq> PermissionDenied \<and> (\<forall>x. parse_line v fl e \<noteq> Failed x)"
  shows "\<exists>ds. parse_lines v fl [] pre = ([], Inr ds) \<and>
           (\<forall>errs es. parse_lines v fl errs (pre @ es) = parse_lines v fl (errs @ ds) es)"
  using assms
proof (induction pre)
  case Nil
  then show ?case by simp
next
  case (Cons e pre)
  then obtain ds where ds: "parse_lines v fl [] pre = ([], Inr ds)"
    and app: "\<forall>errs es. parse_lines v fl errs (pre @ es) = parse_lines v fl (errs @ ds) es"
    by auto
  show ?case
  proof (cases "parse_line v fl e")
    case PermissionDenied
    with Cons.prems show ?thesis by simp
  next
    case NoDiagnostic
    with ds app show ?thesis by simp
  next
    case (Failed x)
    with Cons.prems show ?thesis by simp
  next
    case (Diagnostic d)
    from app[rule_format, of "[d]" "[]"] have "parse_lines v fl [d] pre = ([], Inr (d # ds))"
      by simp
    with Diagnostic app show ?thesis by simp
  qed
qed

lemma parse_lines_reach_failure:
  assumes "parse_line v fl e = Failed x"
    and "\<forall>e'\<in>set pre. parse_line v fl e' \<noteq> PermissionDenied"
  shows "parse_lines v fl errs (pre @ e # post) = ([], Inl IndexError)"
  using assms(2)
proof (induction pre arbitrary: errs)
  case Nil
  then show ?case using assms(1) parse_line_Failed[OF assms(1)] by simp
next
  case (Cons a pre)
  then show ?case by (cases "parse_line v fl a") (auto dest: parse_line_Failed)
qed

lemma match_comment_diagnostic_line [simp]:
  "match_literal ''####'' (diagnostic_line N T D @ rest) = None"
  by (simp add: diagnostic_line_def)

lemma error_details_wellformed:
  assumes "N \<noteq> []" and "\<forall>c\<in>set N. isdigit c" and "quote \<notin> set T" and "newline \<notin> set D"
    and "rest = [] \<or> hd rest = newline"
  shows "error_details (diagnostic_line N T D @ rest) = Some (py_int N - 1, T, D)"
  using errorPattern_match_shape[OF assms]
  by (simp add: error_details_def diagnostic_line_def)

lemma parse_line_wellformed:
  assumes "N \<noteq> []" and "\<forall>c\<in>set N. isdigit c" and "quote \<notin> set T" and "newline \<notin> set D"
    and "rest = [] \<or> hd rest = newline"
  shows "parse_line v fl (diagnostic_line N T D @ rest) =
           (if re_search_ignorecase ''permission denied'' (diagnostic_line N T D @ rest)
            then PermissionDenied
            else (case py_index fl (py_int N - 1) of
                    Inl x \<Rightarrow> Failed x
                  | Inr loc \<Rightarrow> Diagnostic \<lparr>region = locate_token v T loc, message = D\<rparr>))"
  using error_details_wellformed[OF assms]
  by (simp add: parse_line_def)

lemma validate_contents_parse:
  assumes "file_name v = Some f" and "run_process ev (popen_call ev v f) = Some out"
    and "parse_lines v (view_lines v) [] (readlines out) = (tr, r)"
  shows "validate_contents ev v = (Popen (popen_call ev v f) # tr, r)"
  using assms by (simp add: validate_contents_def)

subsection \<open>The event handlers\<close>

lemmas handler_defs = run_validator_def on_selection_modified_def apply_settings_def
  DEFAULT_SETTINGS_def settings_set_def erase_status_def set_status_def add_regions_def
  erase_regions_def clear_errors_def show_errors_def status_key_def regions_key_def
  is_glsl_or_essl_def is_valid_file_ending_def search_frag_vert_def suffix_message_def

lemma parse_line_PermissionDenied_iff:
  "parse_line v fl e = PermissionDenied \<longleftrightarrow> re_search_ignorecase ''permission denied'' e"
  by (auto simp: parse_line_def split: option.splits sum.splits)

lemma error_details_not_comment:
  assumes "error_details e = Some x"
  shows "match_literal ''####'' e = None"
proof -
  from assms obtain s1 where "match_literal ''ERROR: 0:'' e = Some s1"
    by (auto simp: error_details_def errorPattern_match_def split: option.splits)
  then have "e = ''ERROR: 0:'' @ s1" by (simp add: match_literal_iff)
  then show ?thesis by simp
qed

lemma parse_line_comment:
  "parse_line v fl (''####'' @ body) = NoDiagnostic \<or>
   parse_line v fl (''####'' @ body) = PermissionDenied"
proof -
  have "match_literal ''####'' (''####'' @ body) = Some body"
    by (rule match_literal_append)
  then show ?thesis by (simp add: parse_line_def)
qed

lemma parse_lines_trace:
  "fst (parse_lines v fl errs es) = [] \<or>
   fst (parse_lines v fl errs es) = [ErrorMessage permission_alert]"
proof (induction es arbitrary: errs)
  case Nil
  then show ?case by simp
next
  case (Cons e es)
  then show ?case by (cases "parse_line v fl e") auto
qed

lemma validate_contents_trace:
  assumes "file_name v = Some f"
  shows "\<exists>tr. fst (validate_contents ev v) = Popen (popen_call ev v f) # tr \<and>
              (\<forall>c. Popen c \<notin> set tr)"
proof (cases "run_process ev (popen_call ev v f)")
  case None
  with assms show ?thesis by (simp add: validate_contents_def)
next
  case (Some out)
  obtain tr r where tr: "parse_lines v (view_lines v) [] (readlines out) = (tr, r)"
    by (cases "parse_lines v (view_lines v) [] (readlines out)")
  with parse_lines_trace[of v "view_lines v" "[]" "readlines out"]
  have "\<forall>c. Popen c \<notin> set tr" by auto
  with validate_contents_parse[OF assms Some tr] show ?thesis by simp
qed

lemma find_first:
  assumes "\<forall>x\<in>set before. \<not> P x" and "P d"
  shows "find P (before @ d # after) = Some d"
  using assms by (induction before) auto

lemma find_nothing: "\<forall>x\<in>set xs. \<not> P x \<Longrightarrow> find P xs = None"
  by (induction xs) auto

lemma covering_message_skip:
  assumes "\<forall>t\<in>set skipped. \<forall>x\<in>set errs. \<not> region_contains (region x) t"
  shows "covering_message errs (skipped @ ss) = covering_message errs ss"
  using assms
proof (induction skipped)
  case Nil
  then show ?case by simp
next
  case (Cons t skipped)
  then have "find (\<lambda>error. region_contains (region error) t) errs = None"
    by (intro find_nothing) simp
  with Cons show ?case by simp
qed

lemma covering_message_empty: "covering_message [] ss = None"
  by (induction ss) auto

lemma is_glsl_or_essl_erase_status [simp]:
  "is_glsl_or_essl (erase_status k v) = is_glsl_or_essl v"
  by (simp add: is_glsl_or_essl_def erase_status_def)

lemma erase_status_fields [simp]:
  "sel (erase_status k v) = sel v"
  "status (erase_status k v) k = None"
  "file_name (erase_status k v) = file_name v"
  "buffer (erase_status k v) = buffer v"
  "settings (erase_status k v) = settings v"
  by (simp_all add: erase_status_def)

lemma set_status_fields [simp]:
  "status (set_status k m v) k = Some m"
  by (simp add: set_status_def)

lemma on_selection_modified_status:
  assumes "is_glsl_or_essl v = Inr True"
  shows "status (view_after (on_selection_modified v p)) status_key =
           (case errors p of None \<Rightarrow> None | Some errs \<Rightarrow> covering_message errs (sel v))"
proof -
  have g: "is_glsl_or_essl (erase_status status_key v) = Inr True"
    using assms by simp
  show ?thesis
    unfolding on_selection_modified_def Let_def g
    by (simp split: option.splits)
qed

lemma ends_with_iff: "ends_with suf s \<longleftrightarrow> (\<exists>stem. s = stem @ suf)"
proof (induction s)
  case Nil
  then show ?case by auto
next
  case (Cons c cs)
  have "(\<exists>stem. c # cs = stem @ suf) \<longleftrightarrow> c # cs = suf \<or> (\<exists>stem. cs = stem @ suf)"
  proof
    assume "\<exists>stem. c # cs = stem @ suf"
    then obtain stem where eq: "c # cs = stem @ suf" by blast
    show "c # cs = suf \<or> (\<exists>stem. cs = stem @ suf)"
    proof (cases stem)
      case Nil
      with eq show ?thesis by simp
    next
      case (Cons x xs)
      with eq show ?thesis by auto
    qed
  next
    assume "c # cs = suf \<or> (\<exists>stem. cs = stem @ suf)"
    then show "\<exists>stem. c # cs = stem @ suf"
    proof
      assume "c # cs = suf"
      then have "c # cs = [] @ suf" by simp
      then show ?thesis by blast
    next
      assume "\<exists>stem. cs = stem @ suf"
      then obtain stem where "cs = stem @ suf" by blast
      then have "c # cs = (c # stem) @ suf" by simp
      then show ?thesis by blast
    qed
  qed
  moreover have "match_literal suf (c # cs) = Some [] \<longleftrightarrow> c # cs = suf"
    by (auto simp: match_literal_iff)
  ultimately show ?case using Cons.IH by simp
qed

lemma search_frag_vert_dotted:
  assumes "name = stem @ ''.frag'' \<or> name = stem @ ''.vert''"
  shows "search_frag_vert name"
proof -
  from assms have "name = (stem @ ''.'') @ ''frag'' \<or> name = (stem @ ''.'') @ ''vert''"
    by simp
  then have "ends_with ''frag'' name \<or> ends_with ''vert'' name"
    unfolding ends_with_iff by blast
  then show ?thesis by (auto simp: search_frag_vert_def)
qed

lemma search_frag_vert_iff:
  "search_frag_vert name \<longleftrightarrow>
     (\<exists>stem. name = stem @ ''frag'' \<or> name = stem @ ''vert'' \<or>
             name = stem @ ''frag'' @ [newline] \<or> name = stem @ ''vert'' @ [newline])"
  unfolding search_frag_vert_def ends_with_iff by blast

lemma apply_settings_plugin:
  "errors (snd (apply_settings ev v p)) = errors p"
  by (simp add: apply_settings_def Let_def)

lemma run_validator_pipeline:
  assumes "apply_settings ev (erase_status status_key v) p = (v2, p2)"
    and "\<not> py_eq_int (settings v2 ''glsv_enabled'') 0"
    and "is_glsl_or_essl v2 = Inr True"
    and "file_name v2 = Some name"
    and "search_frag_vert name"
  shows "run_validator ev v p =
           (case validate_contents ev v2 of
              (tr, Inl x) \<Rightarrow>
                \<lparr>view_after = v2, plugin_after = p2, trace = tr, raised = Some x\<rparr>
            | (tr, Inr errs) \<Rightarrow>
                \<lparr>view_after = show_errors errs v2, plugin_after = p2\<lparr>errors := Some errs\<rparr>,
                 trace = tr, raised = None\<rparr>)"
  using assms by (simp add: run_validator_def is_valid_file_ending_def)

lemma run_validator_wrong_suffix:
  assumes "apply_settings ev (erase_status status_key v) p = (v2, p2)"
    and "\<not> py_eq_int (settings v2 ''glsv_enabled'') 0"
    and "is_glsl_or_essl v2 = Inr True"
    and "file_name v2 = Some name"
    and "\<not> search_frag_vert name"
  shows "run_validator ev v p =
           \<lparr>view_after = set_status status_key suffix_message v2, plugin_after = p2,
            trace = [], raised = None\<rparr>"
  using assms by (simp add: run_validator_def is_valid_file_ending_def)

lemma run_validator_errors:
  "errors (plugin_after (run_validator ev v p)) = errors p \<or>
   (\<exists>errs. snd (validate_contents ev (fst (apply_settings ev (erase_status status_key v) p))) =
             Inr errs \<and>
           errors (plugin_after (run_validator ev v p)) = Some errs)"
proof -
  obtain v2 p2 where ap: "apply_settings ev (erase_status status_key v) p = (v2, p2)"
    by (cases "apply_settings ev (erase_status status_key v) p")
  from apply_settings_plugin[of ev "erase_status status_key v" p] ap
  have e: "errors p2 = errors p" by simp
  obtain tr r where vc: "validate_contents ev v2 = (tr, r)"
    by (cases "validate_contents ev v2")
  show ?thesis
    unfolding run_validator_def ap using e vc
    by (cases r) (auto split: sum.splits)
qed

section \<open>The claims\<close>

subsection \<open>C1: a well-formed line becomes a diagnostic\<close>

text \<open>
  Claim C1, as amended. Let an output line have the shape \<^verbatim>\<open>ERROR: 0:N: 'T' : D\<close>
  (\<open>N\<close> a non-empty run of digits, \<open>T\<close> without a quote, \<open>D\<close> running to the end of
  the line). The pattern extracts the line index \<open>N - 1\<close>, the token \<open>T\<close> and the
  description \<open>D\<close>. If the line carries no permission-denied signature, if \<open>N - 1\<close>
  indexes a line of the document, and if no other line of the output ends the run
  (by the permission-denied return or by an index error), then \<^verbatim>\<open>validate_contents\<close>
  returns, between the diagnostics of the lines before and those of the lines after, an
  error object whose message is \<open>D\<close> and whose region is found from line \<open>N - 1\<close> and
  token \<open>T\<close>. The error object itself stores only region and message.
\<close>


theorem wellformed_line_yields_diagnostic:
  assumes "N \<noteq> []" and "\<forall>c\<in>set N. isdigit c" and "quote \<notin> set T" and "newline \<notin> set D"
    and "rest = [] \<or> hd rest = newline"
    and "e = diagnostic_line N T D @ rest"
    and "file_name v = Some f"
    and "run_process ev (popen_call ev v f) = Some out"
    and "readlines out = pre @ e # post"
    and "\<not> re_search_ignorecase ''permission denied'' e"
    and "py_index (view_lines v) (py_int N - 1) = Inr lineRegion"
    and "\<forall>e'\<in>set pre \<union> set post.
           parse_line v (view_lines v) e' \<noteq> PermissionDenied \<and>
           (\<forall>x. parse_line v (view_lines v) e' \<noteq> Failed x)"
  shows "error_details e = Some (py_int N - 1, T, D) \<and>
         (\<exists>ds1 ds2.
            parse_lines v (view_lines v) [] pre = ([], Inr ds1) \<and>
            parse_lines v (view_lines v) [] post = ([], Inr ds2) \<and>
            validate_contents ev v =
              ([Popen (popen_call ev v f)],
               Inr (ds1 @ \<lparr>region = locate_token v T lineRegion, message = D\<rparr> # ds2)))"
proof -
  let ?fl = "view_lines v"
  let ?d = "\<lparr>region = locate_token v T lineRegion, message = D\<rparr>"
  have details: "error_details e = Some (py_int N - 1, T, D)"
    unfolding assms(6) by (rule error_details_wellformed[OF assms(1-5)])
  have line: "parse_line v ?fl e = Diagnostic ?d"
    using parse_line_wellformed[OF assms(1-5), of v ?fl] assms(10,11)
    unfolding assms(6) by simp
  from assms(12) have "\<forall>e'\<in>set pre. parse_line v ?fl e' \<noteq> PermissionDenied \<and>
      (\<forall>x. parse_line v ?fl e' \<noteq> Failed x)" by blast
  from parse_lines_split[OF this] obtain ds1
    where ds1: "parse_lines v ?fl [] pre = ([], Inr ds1)"
      and app1: "\<forall>errs es. parse_lines v ?fl errs (pre @ es) = parse_lines v ?fl (errs @ ds1) es"
    by blast
  from assms(12) have "\<forall>e'\<in>set post. parse_line v ?fl e' \<noteq> PermissionDenied \<and>
      (\<forall>x. parse_line v ?fl e' \<noteq> Failed x)" by blast
  from parse_lines_split[OF this] obtain ds2
    where ds2: "parse_lines v ?fl [] post = ([], Inr ds2)"
      and app2: "\<forall>errs es. parse_lines v ?fl errs (post @ es) = parse_lines v ?fl (errs @ ds2) es"
    by blast
  have "parse_lines v ?fl [] (pre @ e # post) = parse_lines v ?fl ds1 (e # post)"
    using app1 by simp
  also have "\<dots> = parse_lines v ?fl (ds1 @ [?d]) post"
    using line by simp
  also have "\<dots> = parse_lines v ?fl (ds1 @ [?d]) (post @ [])"
    by simp
  also have "\<dots> = parse_lines v ?fl ((ds1 @ [?d]) @ ds2) []"
    by (rule app2[rule_format])
  finally have "parse_lines v ?fl [] (readlines out) = ([], Inr (ds1 @ ?d # ds2))"
    using assms(9) by simp
  from validate_contents_parse[OF assms(7,8) this] details ds1 ds2
  show ?thesis by blast
qed

text \<open>
  The example of the specification: \<^verbatim>\<open>foo\<close> on the third line, reported after a banner
  line.
\<close>

theorem wellformed_line_yields_diagnostic_witness:
  "validate_contents
     (compiler_printing
        (banner_line @ diagnostic_line ''3'' ''foo'' ''no matching overloaded function found'' @ [newline]))
     (view_of shader_document ''a.frag'' ''GLSL'') =
   ([Popen (popen_call
        (compiler_printing
          (banner_line @ diagnostic_line ''3'' ''foo'' ''no matching overloaded function found'' @ [newline]))
        (view_of shader_document ''a.frag'' ''GLSL'') ''a.frag'')],
    Inr [\<lparr>region = Region 23 26, message = ''no matching overloaded function found''\<rparr>])"
proof -
  let ?e = "diagnostic_line ''3'' ''foo'' ''no matching overloaded function found'' @ [newline]"
  let ?out = "banner_line @ ?e"
  let ?v = "view_of shader_document ''a.frag'' ''GLSL''"
  let ?ev = "compiler_printing ?out"
  have h1: "''3'' \<noteq> []" by simp
  have h2: "\<forall>c\<in>set ''3''. isdigit c" by (simp add: isdigit_def)
  have h3: "quote \<notin> set ''foo''" by (simp add: quote_def)
  have h4: "newline \<notin> set ''no matching overloaded function found''" by (simp add: newline_def)
  have h5: "[newline] = [] \<or> hd [newline] = newline" by simp
  have h7: "file_name ?v = Some ''a.frag''" by (simp add: view_of_def)
  have h8: "run_process ?ev (popen_call ?ev ?v ''a.frag'') = Some ?out"
    by (simp add: compiler_printing_def)
  have h9: "readlines ?out = [banner_line] @ ?e # []"
    by (simp add: banner_line_def string_defs)
  have h10: "\<not> re_search_ignorecase ''permission denied'' ?e"
    by (simp add: string_defs search_defs)
  have h11: "py_index (view_lines ?v) (py_int ''3'' - 1) = Inr (Region 10 31)"
    by (simp add: py_index_def py_int_def digit_value_def view_lines_def example_defs newline_def)
  have banner: "parse_line ?v (view_lines ?v) banner_line = NoDiagnostic"
    by (simp add: banner_line_def parse_line_def search_defs)
  then have h12: "\<forall>e'\<in>set [banner_line] \<union> set [].
      parse_line ?v (view_lines ?v) e' \<noteq> PermissionDenied \<and>
      (\<forall>x. parse_line ?v (view_lines ?v) e' \<noteq> Failed x)"
    by simp
  from wellformed_line_yields_diagnostic[OF h1 h2 h3 h4 h5 refl h7 h8 h9 h10 h11 h12]
  obtain ds1 ds2 where
    "parse_lines ?v (view_lines ?v) [] [banner_line] = ([], Inr ds1)"
    "parse_lines ?v (view_lines ?v) [] [] = ([], Inr ds2)"
    "validate_contents ?ev ?v =
       ([Popen (popen_call ?ev ?v ''a.frag'')],
        Inr (ds1 @ \<lparr>region = locate_token ?v ''foo'' (Region 10 31),
                     message = ''no matching overloaded function found''\<rparr> # ds2))"
    by blast
  moreover have "locate_token ?v ''foo'' (Region 10 31) = Region 23 26"
    by (simp add: locate_token_def view_find_def region_begin_def example_defs newline_def)
  ultimately show ?thesis using banner by simp
qed

text \<open>
  The claim as stated fails on a well-formed line whose description carries the
  permission-denied signature: the pattern matches the line, and yet the call raises the
  alert and returns the empty list.
\<close>

theorem wellformed_line_counterexample:
  "errorPattern_match (diagnostic_line ''1'' ''foo'' ''Permission denied'' @ [newline]) =
     Some (''1'', ''foo'', ''Permission denied'') \<and>
   validate_contents
     (compiler_printing (diagnostic_line ''1'' ''foo'' ''Permission denied'' @ [newline]))
     (view_of ''foo();'' ''a.frag'' ''GLSL'') =
   ([Popen (popen_call
        (compiler_printing (diagnostic_line ''1'' ''foo'' ''Permission denied'' @ [newline]))
        (view_of ''foo();'' ''a.frag'' ''GLSL'') ''a.frag''),
     ErrorMessage permission_alert],
    Inr [])"
  by (simp add: validate_contents_def example_defs parse_defs string_defs search_defs)

subsection \<open>C2: the permission-denied signature ends the run\<close>

text \<open>
  Claim C2, as amended. If an output line contains \<^verbatim>\<open>permission denied\<close> in any
  mixture of cases, and no earlier output line raises an index error (which would end
  the call before this line is looked at), then \<^verbatim>\<open>validate_contents\<close> starts the
  compiler once, raises the alert once and returns the empty list, whatever diagnostics
  the earlier lines produced and whatever follows.
\<close>

theorem permission_denied_short_circuits:
  assumes "file_name v = Some f"
    and "run_process ev (popen_call ev v f) = Some out"
    and "readlines out = pre @ e # post"
    and "re_search_ignorecase ''permission denied'' e"
    and "\<forall>e'\<in>set pre. \<forall>x. parse_line v (view_lines v) e' \<noteq> Failed x"
  shows "validate_contents ev v =
           ([Popen (popen_call ev v f), ErrorMessage permission_alert], Inr [])"
proof -
  from assms(4) have "parse_line v (view_lines v) e = PermissionDenied"
    by (simp add: parse_line_def)
  from parse_lines_reach_permission[OF this assms(5), of "[]" post] assms(3)
  have "parse_lines v (view_lines v) [] (readlines out) =
          ([ErrorMessage permission_alert], Inr [])"
    by simp
  from validate_contents_parse[OF assms(1,2) this] show ?thesis .
qed

text \<open>
  A diagnostic for the first line is collected, then the shell's complaint ends the run:
  the collected diagnostic is dropped.
\<close>

theorem permission_denied_short_circuits_witness:
  "validate_contents
     (compiler_printing
        (diagnostic_line ''1'' ''foo'' ''undeclared identifier'' @ [newline] @
         ''/bin/sh: ./essl_to_glsl: Permission denied'' @ [newline]))
     (view_of ''foo();'' ''a.frag'' ''GLSL'') =
   ([Popen (popen_call
        (compiler_printing
           (diagnostic_line ''1'' ''foo'' ''undeclared identifier'' @ [newline] @
            ''/bin/sh: ./essl_to_glsl: Permission denied'' @ [newline]))
        (view_of ''foo();'' ''a.frag'' ''GLSL'') ''a.frag''),
     ErrorMessage permission_alert],
    Inr [])"
proof -
  let ?l1 = "diagnostic_line ''1'' ''foo'' ''undeclared identifier'' @ [newline]"
  let ?l2 = "''/bin/sh: ./essl_to_glsl: Permission denied'' @ [newline]"
  let ?v = "view_of ''foo();'' ''a.frag'' ''GLSL''"
  let ?ev = "compiler_printing (?l1 @ ?l2)"
  have h1: "file_name ?v = Some ''a.frag''" by (simp add: view_of_def)
  have h2: "run_process ?ev (popen_call ?ev ?v ''a.frag'') = Some (?l1 @ ?l2)"
    by (simp add: compiler_printing_def)
  have h3: "readlines (?l1 @ ?l2) = [?l1] @ ?l2 # []"
    by (simp add: string_defs)
  have h4: "re_search_ignorecase ''permission denied'' ?l2"
    by (simp add: string_defs search_defs)
  have "parse_line ?v (view_lines ?v) ?l1 =
          Diagnostic \<lparr>region = Region 0 3, message = ''undeclared identifier''\<rparr>"
    by (simp add: parse_defs string_defs search_defs example_defs)
  then have h5: "\<forall>e'\<in>set [?l1]. \<forall>x. parse_line ?v (view_lines ?v) e' \<noteq> Failed x"
    by simp
  from permission_denied_short_circuits[OF h1 h2 h3 h4 h5] show ?thesis by simp
qed

text \<open>
  The claim as stated fails when an earlier line reports a line number outside the
  document: the index error ends the call before the permission-denied line is reached,
  so no alert is raised and no list is returned.
\<close>

theorem permission_denied_counterexample:
  "re_search_ignorecase ''permission denied'' (''sh: permission denied'' @ [newline]) \<and>
   validate_contents
     (compiler_printing
        (diagnostic_line ''9'' ''foo'' ''undeclared identifier'' @ [newline] @
         ''sh: permission denied'' @ [newline]))
     (view_of ''foo();'' ''a.frag'' ''GLSL'') =
   ([Popen (popen_call
        (compiler_printing
           (diagnostic_line ''9'' ''foo'' ''undeclared identifier'' @ [newline] @
            ''sh: permission denied'' @ [newline]))
        (view_of ''foo();'' ''a.frag'' ''GLSL'') ''a.frag'')],
    Inl IndexError)"
  by (simp add: validate_contents_def example_defs parse_defs string_defs search_defs)

subsection \<open>C3: a reported line outside the document\<close>

text \<open>
  Claim C3, as amended. A well-formed diagnostic line without permission-denied
  signature whose index \<open>N - 1\<close> lies outside the list of document lines makes the
  lookup \<^verbatim>\<open>fileLines[errorLine]\<close> raise \<open>IndexError\<close>. Nothing catches it: the loop
  stops at that line, whatever was collected and whatever follows, and, unless an
  earlier line already left through the permission-denied return,
  \<^verbatim>\<open>validate_contents\<close> ends with the exception instead of a list.
\<close>

theorem out_of_range_line_aborts:
  assumes "N \<noteq> []" and "\<forall>c\<in>set N. isdigit c" and "quote \<notin> set T" and "newline \<notin> set D"
    and "rest = [] \<or> hd rest = newline"
    and "e = diagnostic_line N T D @ rest"
    and "\<not> re_search_ignorecase ''permission denied'' e"
    and "\<not> (- int (length (view_lines v)) \<le> py_int N - 1 \<and>
             py_int N - 1 < int (length (view_lines v)))"
    and "file_name v = Some f"
    and "run_process ev (popen_call ev v f) = Some out"
    and "readlines out = pre @ e # post"
    and "\<forall>e'\<in>set pre. \<not> re_search_ignorecase ''permission denied'' e'"
  shows "parse_line v (view_lines v) e = Failed IndexError \<and>
         (\<forall>errs es. parse_lines v (view_lines v) errs (e # es) = ([], Inl IndexError)) \<and>
         validate_contents ev v = ([Popen (popen_call ev v f)], Inl IndexError)"
proof -
  let ?fl = "view_lines v"
  have line: "parse_line v ?fl e = Failed IndexError"
    using parse_line_wellformed[OF assms(1-5), of v ?fl] assms(7) py_index_outside[OF assms(8)]
    unfolding assms(6) by simp
  then have stop: "\<forall>errs es. parse_lines v ?fl errs (e # es) = ([], Inl IndexError)"
    by simp
  have "\<forall>e'\<in>set pre. parse_line v ?fl e' \<noteq> PermissionDenied"
    using assms(12) by (simp add: parse_line_PermissionDenied_iff)
  from parse_lines_reach_failure[OF line this, of "[]" post] assms(11)
  have "parse_lines v ?fl [] (readlines out) = ([], Inl IndexError)"
    by simp
  from validate_contents_parse[OF assms(9,10) this] line stop show ?thesis by blast
qed

theorem out_of_range_line_aborts_witness:
  "parse_line (view_of ''foo();'' ''a.frag'' ''GLSL'') (view_lines (view_of ''foo();'' ''a.frag'' ''GLSL''))
      (diagnostic_line ''7'' ''foo'' ''undeclared identifier'' @ [newline]) = Failed IndexError \<and>
   validate_contents
     (compiler_printing
        (banner_line @ diagnostic_line ''7'' ''foo'' ''undeclared identifier'' @ [newline]))
     (view_of ''foo();'' ''a.frag'' ''GLSL'') =
   ([Popen (popen_call
        (compiler_printing
           (banner_line @ diagnostic_line ''7'' ''foo'' ''undeclared identifier'' @ [newline]))
        (view_of ''foo();'' ''a.frag'' ''GLSL'') ''a.frag'')],
    Inl IndexError)"
proof -
  let ?e = "diagnostic_line ''7'' ''foo'' ''undeclared identifier'' @ [newline]"
  let ?v = "view_of ''foo();'' ''a.frag'' ''GLSL''"
  let ?ev = "compiler_printing (banner_line @ ?e)"
  have h1: "''7'' \<noteq> []" by simp
  have h2: "\<forall>c\<in>set ''7''. isdigit c" by (simp add: isdigit_def)
  have h3: "quote \<notin> set ''foo''" by (simp add: quote_def)
  have h4: "newline \<notin> set ''undeclared identifier''" by (simp add: newline_def)
  have h5: "[newline] = [] \<or> hd [newline] = newline" by simp
  have h7: "\<not> re_search_ignorecase ''permission denied'' ?e"
    by (simp add: string_defs search_defs)
  have h8: "\<not> (- int (length (view_lines ?v)) \<le> py_int ''7'' - 1 \<and>
              py_int ''7'' - 1 < int (length (view_lines ?v)))"
    by (simp add: py_int_def digit_value_def view_lines_def example_defs newline_def)
  have h9: "file_name ?v = Some ''a.frag''" by (simp add: view_of_def)
  have h10: "run_process ?ev (popen_call ?ev ?v ''a.frag'') = Some (banner_line @ ?e)"
    by (simp add: compiler_printing_def)
  have h11: "readlines (banner_line @ ?e) = [banner_line] @ ?e # []"
    by (simp add: banner_line_def string_defs)
  have h12: "\<forall>e'\<in>set [banner_line]. \<not> re_search_ignorecase ''permission denied'' e'"
    by (simp add: banner_line_def string_defs search_defs)
  from out_of_range_line_aborts[OF h1 h2 h3 h4 h5 refl h7 h8 h9 h10 h11 h12]
  show ?thesis by blast
qed

text \<open>
  The claim as stated fails: line 7 of a one-line document is reported first, then a
  diagnostic for line 1. The second diagnostic is never parsed and the call returns
  nothing; the exception also leaves \<^verbatim>\<open>run_validator\<close>, which keeps the listener's
  diagnostics as they were and shows no region.
\<close>

theorem out_of_range_line_counterexample:
  "validate_contents
     (compiler_printing
        (diagnostic_line ''7'' ''foo'' ''undeclared identifier'' @ [newline] @
         diagnostic_line ''1'' ''foo'' ''no matching overloaded function found'' @ [newline]))
     (view_of ''foo();'' ''a.frag'' ''GLSL'') =
   ([Popen (popen_call
        (compiler_printing
           (diagnostic_line ''7'' ''foo'' ''undeclared identifier'' @ [newline] @
            diagnostic_line ''1'' ''foo'' ''no matching overloaded function found'' @ [newline]))
        (view_of ''foo();'' ''a.frag'' ''GLSL'') ''a.frag'')],
    Inl IndexError) \<and>
   raised (run_validator
     (compiler_printing
        (diagnostic_line ''7'' ''foo'' ''undeclared identifier'' @ [newline] @
         diagnostic_line ''1'' ''foo'' ''no matching overloaded function found'' @ [newline]))
     (view_of ''foo();'' ''a.frag'' ''GLSL'') fresh_plugin) = Some IndexError \<and>
   errors (plugin_after (run_validator
     (compiler_printing
        (diagnostic_line ''7'' ''foo'' ''undeclared identifier'' @ [newline] @
         diagnostic_line ''1'' ''foo'' ''no matching overloaded function found'' @ [newline]))
     (view_of ''foo();'' ''a.frag'' ''GLSL'') fresh_plugin)) = None"
proof -
  let ?out = "diagnostic_line ''7'' ''foo'' ''undeclared identifier'' @ [newline] @
         diagnostic_line ''1'' ''foo'' ''no matching overloaded function found'' @ [newline]"
  let ?v = "view_of ''foo();'' ''a.frag'' ''GLSL''"
  have "validate_contents (compiler_printing ?out) ?v =
     ([Popen (popen_call (compiler_printing ?out) ?v ''a.frag'')], Inl IndexError)"
    by (simp add: validate_contents_def example_defs parse_defs string_defs search_defs)
  moreover have "raised (run_validator (compiler_printing ?out) ?v fresh_plugin) = Some IndexError"
    by (simp add: handler_defs validate_contents_def example_defs parse_defs string_defs search_defs)
  moreover have "errors (plugin_after (run_validator (compiler_printing ?out) ?v fresh_plugin)) = None"
    by (simp add: handler_defs validate_contents_def example_defs parse_defs string_defs search_defs)
  ultimately show ?thesis by simp
qed

subsection \<open>C4: the token narrows the region\<close>

text \<open>
  Claim C4. Take an output line on which the loop reaches the construction of an error
  object: the pattern matches with a non-empty token, the line lookup succeeds and the
  line carries no permission-denied signature. Then an error object with the line's
  description is produced in every case. If the token stands in the buffer at some offset
  at or after the beginning of the implicated line, the object's region is the exact span
  of the first such occurrence; if it stands at no such offset, the region is the full
  implicated line.
\<close>

theorem token_refines_region:
  assumes "error_details e = Some (errorLine, tok, desc)"
    and "tok \<noteq> []"
    and "\<not> re_search_ignorecase ''permission denied'' e"
    and "py_index fileLines errorLine = Inr lineRegion"
  shows "\<exists>d. parse_line v fileLines e = Diagnostic d \<and> message d = desc \<and>
           ((\<exists>p. region_begin lineRegion \<le> int p \<and> occurs_at (buffer v) tok p) \<longrightarrow>
              (\<exists>p. region_begin lineRegion \<le> int p \<and> occurs_at (buffer v) tok p \<and>
                   (\<forall>q. region_begin lineRegion \<le> int q \<and> q < p \<longrightarrow>
                        \<not> occurs_at (buffer v) tok q) \<and>
                   region d = Region (int p) (int p + int (length tok)))) \<and>
           ((\<forall>p. region_begin lineRegion \<le> int p \<longrightarrow> \<not> occurs_at (buffer v) tok p) \<longrightarrow>
              region d = lineRegion)"
proof -
  let ?d = "\<lparr>region = locate_token v tok lineRegion, message = desc\<rparr>"
  have line: "parse_line v fileLines e = Diagnostic ?d"
    using assms(1,3,4) error_details_not_comment[OF assms(1)]
    by (simp add: parse_line_def)
  have found: "\<exists>p. region_begin lineRegion \<le> int p \<and> occurs_at (buffer v) tok p \<and>
                   (\<forall>q. region_begin lineRegion \<le> int q \<and> q < p \<longrightarrow>
                        \<not> occurs_at (buffer v) tok q) \<and>
                   region ?d = Region (int p) (int p + int (length tok))"
    if ex: "\<exists>p. region_begin lineRegion \<le> int p \<and> occurs_at (buffer v) tok p"
  proof (cases "view_find v tok (region_begin lineRegion)")
    case None
    with ex view_find_None[OF assms(2) None] show ?thesis by blast
  next
    case (Some r)
    from view_find_Some[OF Some] obtain p where
      "r = Region (int p) (int p + int (length tok))" "region_begin lineRegion \<le> int p"
      "occurs_at (buffer v) tok p"
      "\<forall>q. region_begin lineRegion \<le> int q \<and> q < p \<longrightarrow> \<not> occurs_at (buffer v) tok q"
      by blast
    moreover have "region ?d = r" using Some assms(2) by (simp add: locate_token_def)
    ultimately show ?thesis by blast
  qed
  have missing: "region ?d = lineRegion"
    if no: "\<forall>p. region_begin lineRegion \<le> int p \<longrightarrow> \<not> occurs_at (buffer v) tok p"
  proof (cases "view_find v tok (region_begin lineRegion)")
    case None
    then show ?thesis by (simp add: locate_token_def)
  next
    case (Some r)
    from view_find_Some[OF Some] no show ?thesis by blast
  qed
  from line found missing show ?thesis by (intro exI[of _ ?d]) auto
qed

text \<open>
  On the shader of the specification's example the token \<^verbatim>\<open>foo\<close> of the third line is
  narrowed to its span, and a token that stands nowhere leaves the full third line.
\<close>

theorem token_refines_region_witness:
  "parse_line (view_of shader_document ''a.frag'' ''GLSL'')
      (view_lines (view_of shader_document ''a.frag'' ''GLSL''))
      (diagnostic_line ''3'' ''foo'' ''undeclared identifier'' @ [newline]) =
     Diagnostic \<lparr>region = Region 23 26, message = ''undeclared identifier''\<rparr> \<and>
   parse_line (view_of shader_document ''a.frag'' ''GLSL'')
      (view_lines (view_of shader_document ''a.frag'' ''GLSL''))
      (diagnostic_line ''3'' ''bar'' ''undeclared identifier'' @ [newline]) =
     Diagnostic \<lparr>region = Region 10 31, message = ''undeclared identifier''\<rparr>"
proof -
  let ?v = "view_of shader_document ''a.frag'' ''GLSL''"
  let ?e = "diagnostic_line ''3'' ''foo'' ''undeclared identifier'' @ [newline]"
  let ?e' = "diagnostic_line ''3'' ''bar'' ''undeclared identifier'' @ [newline]"
  have buf: "buffer ?v = shader_document" by (simp add: view_of_def)
  have h1: "error_details ?e = Some (2, ''foo'', ''undeclared identifier'')"
    by (simp add: parse_defs string_defs)
  have h1': "error_details ?e' = Some (2, ''bar'', ''undeclared identifier'')"
    by (simp add: parse_defs string_defs)
  have h3: "\<not> re_search_ignorecase ''permission denied'' ?e"
    by (simp add: string_defs search_defs)
  have h3': "\<not> re_search_ignorecase ''permission denied'' ?e'"
    by (simp add: string_defs search_defs)
  have h4: "py_index (view_lines ?v) 2 = Inr (Region 10 31)"
    by (simp add: py_index_def view_lines_def example_defs newline_def)
  have occ: "occurs_at (buffer ?v) ''foo'' 23"
    by (simp add: occurs_at_def example_defs newline_def)
  have first: "\<not> occurs_at (buffer ?v) ''foo'' q" if "region_begin (Region 10 31) \<le> int q" "q < 23" for q
  proof -
    from that have "10 \<le> q \<and> q < 23" by (simp add: region_begin_def)
    then have "q \<in> {10,11,12,13,14,15,16,17,18,19,20,21,22}"
      by simp arith
    then show ?thesis
      by (auto simp: occurs_at_def example_defs newline_def)
  qed
  from token_refines_region[OF h1 _ h3 h4, of ?v] obtain d where d:
    "parse_line ?v (view_lines ?v) ?e = Diagnostic d" "message d = ''undeclared identifier''"
    "(\<exists>p. region_begin (Region 10 31) \<le> int p \<and> occurs_at (buffer ?v) ''foo'' p) \<longrightarrow>
       (\<exists>p. region_begin (Region 10 31) \<le> int p \<and> occurs_at (buffer ?v) ''foo'' p \<and>
            (\<forall>q. region_begin (Region 10 31) \<le> int q \<and> q < p \<longrightarrow>
                 \<not> occurs_at (buffer ?v) ''foo'' q) \<and>
            region d = Region (int p) (int p + int (length ''foo'')))"
    by auto
  have "region_begin (Region 10 31) \<le> int 23" by (simp add: region_begin_def)
  with occ d(3) obtain p where p: "region_begin (Region 10 31) \<le> int p"
    "occurs_at (buffer ?v) ''foo'' p"
    "\<forall>q. region_begin (Region 10 31) \<le> int q \<and> q < p \<longrightarrow> \<not> occurs_at (buffer ?v) ''foo'' q"
    "region d = Region (int p) (int p + int (length ''foo''))"
    by blast
  have "p = 23"
  proof (rule ccontr)
    assume "p \<noteq> 23"
    then consider "p < 23" | "23 < p" by linarith
    then show False
    proof cases
      case 1
      with first p(1,2) show False by blast
    next
      case 2
      with p(3) occ \<open>region_begin (Region 10 31) \<le> int 23\<close> show False by blast
    qed
  qed
  with p(4) d(1,2) have one: "parse_line ?v (view_lines ?v) ?e =
     Diagnostic \<lparr>region = Region 23 26, message = ''undeclared identifier''\<rparr>"
    by (cases d) simp
  have none: "\<not> occurs_at (buffer ?v) ''bar'' q" for q
  proof (cases "q < 31")
    case True
    then have "q \<in> {0,1,2,3,4,5,6,7,8,9,10,11,12,13,14,15,16,17,18,19,20,21,22,23,24,25,26,27,28,29,30}"
      by simp arith
    then show ?thesis by (auto simp: occurs_at_def example_defs newline_def)
  next
    case False
    then have "length (buffer ?v) \<le> q" by (simp add: example_defs)
    then show ?thesis by (simp add: occurs_at_def)
  qed
  from token_refines_region[OF h1' _ h3' h4, of ?v] obtain d' where d':
    "parse_line ?v (view_lines ?v) ?e' = Diagnostic d'" "message d' = ''undeclared identifier''"
    "(\<forall>p. region_begin (Region 10 31) \<le> int p \<longrightarrow> \<not> occurs_at (buffer ?v) ''bar'' p) \<longrightarrow>
       region d' = Region 10 31"
    by auto
  with none have "parse_line ?v (view_lines ?v) ?e' =
     Diagnostic \<lparr>region = Region 10 31, message = ''undeclared identifier''\<rparr>"
    by (cases d') simp
  with one show ?thesis by simp
qed

subsection \<open>C8: output without a well-formed line\<close>

text \<open>
  Claim C8. If no line of the compiler's output matches the error pattern, then
  \<^verbatim>\<open>validate_contents\<close> returns the empty list and raises no exception; comment lines
  and other lines that do not match are passed over (a line with the permission-denied
  signature still raises its alert, and the list returned is empty as well). A line that
  begins with \<^verbatim>\<open>####\<close> never yields an error object and never raises, whatever follows
  the marker and whatever the document is.
\<close>

theorem no_wellformed_line_no_diagnostic:
  assumes "file_name v = Some f"
    and "run_process ev (popen_call ev v f) = Some out"
    and "\<forall>e\<in>set (readlines out). errorPattern_match e = None"
  shows "snd (validate_contents ev v) = Inr [] \<and>
         (\<forall>fl body. parse_line v fl (''####'' @ body) = NoDiagnostic \<or>
                    parse_line v fl (''####'' @ body) = PermissionDenied)"
proof -
  from parse_lines_no_match[OF assms(3), of v "view_lines v" "[]"]
  have "snd (parse_lines v (view_lines v) [] (readlines out)) = Inr []"
    by auto
  moreover obtain tr r where tr: "parse_lines v (view_lines v) [] (readlines out) = (tr, r)"
    by (cases "parse_lines v (view_lines v) [] (readlines out)")
  ultimately have "snd (validate_contents ev v) = Inr []"
    using validate_contents_parse[OF assms(1,2) tr] by simp
  with parse_line_comment show ?thesis by blast
qed

text \<open>
  A banner, a line that only resembles a diagnostic (the number is missing) and a second
  banner that quotes a whole diagnostic after the marker: nothing is returned.
\<close>

theorem no_wellformed_line_no_diagnostic_witness:
  "snd (validate_contents
     (compiler_printing
        (banner_line @ ''ERROR: 0:: x'' @ [newline] @
         ''####'' @ diagnostic_line ''1'' ''foo'' ''undeclared identifier'' @ [newline]))
     (view_of ''foo();'' ''a.frag'' ''GLSL'')) = Inr []"
proof -
  let ?l2 = "''ERROR: 0:: x'' @ [newline]"
  let ?l3 = "''####'' @ diagnostic_line ''1'' ''foo'' ''undeclared identifier'' @ [newline]"
  let ?out = "banner_line @ ?l2 @ ?l3"
  let ?v = "view_of ''foo();'' ''a.frag'' ''GLSL''"
  let ?ev = "compiler_printing ?out"
  have h1: "file_name ?v = Some ''a.frag''" by (simp add: view_of_def)
  have h2: "run_process ?ev (popen_call ?ev ?v ''a.frag'') = Some ?out"
    by (simp add: compiler_printing_def)
  have lines: "readlines ?out = [banner_line, ?l2, ?l3]"
    by (simp add: banner_line_def string_defs)
  have "errorPattern_match banner_line = None" "errorPattern_match ?l2 = None"
    "errorPattern_match ?l3 = None"
    by (simp_all add: banner_line_def errorPattern_match_def string_defs)
  with lines have h3: "\<forall>e\<in>set (readlines ?out). errorPattern_match e = None"
    by simp
  from no_wellformed_line_no_diagnostic[OF h1 h2 h3] show ?thesis by simp
qed

subsection \<open>C10: reported line number 0\<close>

text \<open>
  Claim C10. For a well-formed line that reports line number 0 and a document with at
  least one line, the computed line index is \<open>-1\<close>, the lookup with this index does not
  raise but gives the region of the document's last line, and the line is neither passed
  over nor the cause of an index error: unless it leaves through the permission-denied
  return, the loop builds an error object whose region starts out as the last line (and
  is then narrowed by the token search from there).
\<close>

theorem line_zero_is_last_line:
  assumes "N \<noteq> []" and "\<forall>c\<in>set N. isdigit c" and "py_int N = 0"
    and "quote \<notin> set T" and "newline \<notin> set D"
    and "rest = [] \<or> hd rest = newline"
    and "e = diagnostic_line N T D @ rest"
    and "fileLines \<noteq> []"
  shows "error_details e = Some (- 1, T, D) \<and>
         py_index fileLines (- 1) = Inr (last fileLines) \<and>
         parse_line v fileLines e \<noteq> NoDiagnostic \<and>
         (\<forall>x. parse_line v fileLines e \<noteq> Failed x) \<and>
         (\<not> re_search_ignorecase ''permission denied'' e \<longrightarrow>
            parse_line v fileLines e =
              Diagnostic \<lparr>region = locate_token v T (last fileLines), message = D\<rparr>)"
proof -
  have details: "error_details e = Some (- 1, T, D)"
    using error_details_wellformed[OF assms(1,2,4,5,6)] assms(3,7) by simp
  have idx: "py_index fileLines (- 1) = Inr (last fileLines)"
    by (rule py_index_minus_one[OF assms(8)])
  have line: "parse_line v fileLines e =
      (if re_search_ignorecase ''permission denied'' e then PermissionDenied
       else Diagnostic \<lparr>region = locate_token v T (last fileLines), message = D\<rparr>)"
    using parse_line_wellformed[OF assms(1,2,4,5,6), of v fileLines] assms(3,7) idx by simp
  from details idx line show ?thesis by simp
qed

text \<open>
  Line 0 with an empty token, against the three-line shader: the error object covers the
  third, last line.
\<close>

theorem line_zero_is_last_line_witness:
  "error_details (diagnostic_line ''0'' [] ''syntax error'' @ [newline]) =
     Some (- 1, [], ''syntax error'') \<and>
   parse_line (view_of shader_document ''a.frag'' ''GLSL'')
      (view_lines (view_of shader_document ''a.frag'' ''GLSL''))
      (diagnostic_line ''0'' [] ''syntax error'' @ [newline]) =
     Diagnostic \<lparr>region = Region 10 31, message = ''syntax error''\<rparr>"
proof -
  let ?v = "view_of shader_document ''a.frag'' ''GLSL''"
  let ?e = "diagnostic_line ''0'' [] ''syntax error'' @ [newline]"
  have h1: "''0'' \<noteq> []" by simp
  have h2: "\<forall>c\<in>set ''0''. isdigit c" by (simp add: isdigit_def)
  have h3: "py_int ''0'' = 0" by (simp add: py_int_def digit_value_def)
  have h4: "quote \<notin> set []" by simp
  have h5: "newline \<notin> set ''syntax error''" by (simp add: newline_def)
  have h6: "[newline] = [] \<or> hd [newline] = newline" by simp
  have h8: "view_lines ?v \<noteq> []" by (rule view_lines_nonempty)
  have np: "\<not> re_search_ignorecase ''permission denied'' ?e"
    by (simp add: string_defs search_defs)
  have lst: "last (view_lines ?v) = Region 10 31"
    by (simp add: view_lines_def example_defs newline_def)
  from line_zero_is_last_line[OF h1 h2 h3 h4 h5 h6 refl h8, of ?v] np lst
  show ?thesis by (simp add: locate_token_def)
qed

subsection \<open>C9: the command line\<close>

text \<open>
  Claim C9. The switch \<^verbatim>\<open>-s=w\<close> is part of the command line exactly when the view's
  setting \<^verbatim>\<open>glsv_spec\<close> does not equal 1, and it is dropped (replaced by the empty
  string) exactly when the setting equals 1. For a view with a file name the first effect
  of \<^verbatim>\<open>validate_contents\<close> is one process start: its command line is the platform's
  executable, a space, the switch or nothing, a space, and the file name; its working
  directory is the plugin's directory under the packages path; the error stream is merged
  into the piped output. No second process is started.
\<close>

theorem command_line_spec_flag:
  assumes "file_name v = Some f"
  shows "(specCmd v = ''-s=w'') = (\<not> py_eq_int (settings v ''glsv_spec'') 1) \<and>
         (specCmd v = []) = py_eq_int (settings v ''glsv_spec'') 1 \<and>
         (\<exists>tr. fst (validate_contents ev v) =
                 Popen \<lparr>args = ANGLEPath (platform_of ev) @ '' '' @ specCmd v @ '' '' @ f,
                        cwd = packages_path ev @ ''/GLShaderValidator/'',
                        stdout_pipe = True, stderr_to_stdout = True, shell = True\<rparr> # tr \<and>
               (\<forall>c. Popen c \<notin> set tr))"
proof -
  have "(specCmd v = ''-s=w'') = (\<not> py_eq_int (settings v ''glsv_spec'') 1)"
    and "(specCmd v = []) = py_eq_int (settings v ''glsv_spec'') 1"
    by (simp_all add: specCmd_def)
  with validate_contents_trace[OF assms, of ev] show ?thesis
    by (simp add: popen_call_def)
qed

text \<open>
  The default configuration passes the switch; with \<^verbatim>\<open>glsv_spec\<close> set to 1 the two
  spaces around the dropped switch remain.
\<close>

theorem command_line_spec_flag_witness:
  "fst (validate_contents (compiler_printing []) (view_of ''foo();'' ''a.frag'' ''GLSL'')) =
     [Popen \<lparr>args = ''./essl_to_glsl -s=w a.frag'', cwd = ''/Packages/GLShaderValidator/'',
             stdout_pipe = True, stderr_to_stdout = True, shell = True\<rparr>] \<and>
   fst (validate_contents (compiler_printing [])
          (settings_set ''glsv_spec'' (SInt 1) (view_of ''foo();'' ''a.frag'' ''GLSL''))) =
     [Popen \<lparr>args = ''./essl_to_glsl  a.frag'', cwd = ''/Packages/GLShaderValidator/'',
             stdout_pipe = True, stderr_to_stdout = True, shell = True\<rparr>]"
proof -
  let ?ev = "compiler_printing []"
  let ?v = "view_of ''foo();'' ''a.frag'' ''GLSL''"
  let ?w = "settings_set ''glsv_spec'' (SInt 1) ?v"
  have fv: "file_name ?v = Some ''a.frag''" by (simp add: view_of_def)
  have fw: "file_name ?w = Some ''a.frag''" by (simp add: view_of_def settings_set_def)
  have sv: "\<not> py_eq_int (settings ?v ''glsv_spec'') 1" by (simp add: view_of_def)
  have sw: "py_eq_int (settings ?w ''glsv_spec'') 1" by (simp add: view_of_def settings_set_def)
  have lv: "length (fst (validate_contents ?ev ?v)) = 1"
    using fv by (simp add: validate_contents_def compiler_printing_def)
  have lw: "length (fst (validate_contents ?ev ?w)) = 1"
    using fw by (simp add: validate_contents_def compiler_printing_def)
  from command_line_spec_flag[OF fv, of ?ev] sv lv
  have one: "fst (validate_contents ?ev ?v) =
     [Popen \<lparr>args = ''./essl_to_glsl -s=w a.frag'', cwd = ''/Packages/GLShaderValidator/'',
             stdout_pipe = True, stderr_to_stdout = True, shell = True\<rparr>]"
    by (auto simp: compiler_printing_def)
  from command_line_spec_flag[OF fw, of ?ev] sw lw
  have two: "fst (validate_contents ?ev ?w) =
     [Popen \<lparr>args = ''./essl_to_glsl  a.frag'', cwd = ''/Packages/GLShaderValidator/'',
             stdout_pipe = True, stderr_to_stdout = True, shell = True\<rparr>]"
    by (auto simp: compiler_printing_def)
  from one two show ?thesis by simp
qed

subsection \<open>C7: the status text under the cursor\<close>

text \<open>
  Claim C7, as amended. On a view whose syntax setting names GLSL or ESSL, a change of
  the selection leaves no status text when the listener's list of diagnostics is empty
  (or was never set), and when some stored diagnostic's region contains a selection it
  shows the message of the first such diagnostic in stored order; with several
  selections the first one that any stored diagnostic contains decides. (On any other
  view the handler only clears the status text.)
\<close>

theorem status_shows_first_covering:
  assumes "is_glsl_or_essl v = Inr True"
  shows "(errors p = None \<or> errors p = Some [] \<longrightarrow>
            status (view_after (on_selection_modified v p)) status_key = None) \<and>
         (\<forall>before d after skipped s more.
            errors p = Some (before @ d # after) \<and>
            (\<forall>x\<in>set before. \<not> region_contains (region x) s) \<and>
            region_contains (region d) s \<and>
            sel v = skipped @ s # more \<and>
            (\<forall>t\<in>set skipped. \<forall>x\<in>set (before @ d # after). \<not> region_contains (region x) t)
            \<longrightarrow> status (view_after (on_selection_modified v p)) status_key = Some (message d))"
proof -
  note st = on_selection_modified_status[OF assms, of p]
  have empty: "status (view_after (on_selection_modified v p)) status_key = None"
    if "errors p = None \<or> errors p = Some []"
    using that st by (auto simp: covering_message_empty)
  have first: "status (view_after (on_selection_modified v p)) status_key = Some (message d)"
    if e: "errors p = Some (before @ d # after)"
      and b: "\<forall>x\<in>set before. \<not> region_contains (region x) s"
      and d: "region_contains (region d) s"
      and s: "sel v = skipped @ s # more"
      and k: "\<forall>t\<in>set skipped. \<forall>x\<in>set (before @ d # after). \<not> region_contains (region x) t"
    for before d after skipped s more
  proof -
    have "find (\<lambda>error. region_contains (region error) s) (before @ d # after) = Some d"
      using b d by (rule find_first)
    then have "covering_message (before @ d # after) (s # more) = Some (message d)"
      by simp
    with covering_message_skip[OF k, of "s # more"] s e st show ?thesis by simp
  qed
  from empty first show ?thesis by blast
qed

text \<open>
  Two stored diagnostics both contain the cursor at offset 24; the message of the first
  is shown.
\<close>

theorem status_shows_first_covering_witness:
  "status (view_after (on_selection_modified
      ((view_of shader_document ''a.frag'' ''GLSL'')\<lparr>sel := [Region 24 24]\<rparr>)
      \<lparr>errors = Some [\<lparr>region = Region 0 4, message = ''unexpected comment''\<rparr>,
                      \<lparr>region = Region 23 26, message = ''undeclared identifier''\<rparr>,
                      \<lparr>region = Region 10 31, message = ''syntax error''\<rparr>],
       pluginSettings = None\<rparr>)) status_key = Some ''undeclared identifier''"
proof -
  let ?v = "(view_of shader_document ''a.frag'' ''GLSL'')\<lparr>sel := [Region 24 24]\<rparr>"
  let ?d0 = "\<lparr>region = Region 0 4, message = ''unexpected comment''\<rparr>"
  let ?d1 = "\<lparr>region = Region 23 26, message = ''undeclared identifier''\<rparr>"
  let ?d2 = "\<lparr>region = Region 10 31, message = ''syntax error''\<rparr>"
  let ?p = "\<lparr>errors = Some [?d0, ?d1, ?d2], pluginSettings = None\<rparr>"
  have g: "is_glsl_or_essl ?v = Inr True"
    by (simp add: is_glsl_or_essl_def view_of_def search_defs)
  have hyp: "errors ?p = Some ([?d0] @ ?d1 # [?d2]) \<and>
      (\<forall>x\<in>set [?d0]. \<not> region_contains (region x) (Region 24 24)) \<and>
      region_contains (region ?d1) (Region 24 24) \<and>
      sel ?v = [] @ Region 24 24 # [] \<and>
      (\<forall>t\<in>set []. \<forall>x\<in>set ([?d0] @ ?d1 # [?d2]). \<not> region_contains (region x) t)"
    by (simp add: region_contains_def contains_point_def region_begin_def region_end_def)
  from status_shows_first_covering[OF g, of ?p] hyp
  have "status (view_after (on_selection_modified ?v ?p)) status_key = Some (message ?d1)"
    by blast
  then show ?thesis by simp
qed

text \<open>
  The claim as stated fails on a view that is not shader source: the stored diagnostic
  contains the cursor, and no status text is shown.
\<close>

theorem status_counterexample:
  "region_contains (Region 0 4) (Region 2 2) \<and>
   status (view_after (on_selection_modified
      ((view_of ''notes'' ''notes.txt'' ''Packages/Text/Plain text.tmLanguage'')
         \<lparr>sel := [Region 2 2]\<rparr>)
      \<lparr>errors = Some [\<lparr>region = Region 0 4, message = ''undeclared identifier''\<rparr>],
       pluginSettings = None\<rparr>)) status_key = None"
  by (simp add: on_selection_modified_def is_glsl_or_essl_def view_of_def search_defs
      erase_status_def status_key_def region_contains_def contains_point_def
      region_begin_def region_end_def)

subsection \<open>C5: the file name decides whether the compiler runs\<close>

text \<open>
  Claim C5, as amended. Take a view that, once its settings are applied, is not disabled
  (\<^verbatim>\<open>glsv_enabled\<close> does not equal 0), is recognized as shader source and has a file
  name. If the name ends in \<^verbatim>\<open>.frag\<close> or \<^verbatim>\<open>.vert\<close>, the validation pass runs the
  pipeline: the compiler is started on the file, and when \<^verbatim>\<open>validate_contents\<close> returns
  a list, that list becomes the listener's diagnostics and its regions are displayed on
  the view. If the name ends in neither \<^verbatim>\<open>frag\<close> nor \<^verbatim>\<open>vert\<close> (a newline closing the
  name aside), the status text "File name must end in .frag or .vert" is set, the
  compiler is not started and the diagnostics stay as they were. Nothing is said here
  about names that end in \<^verbatim>\<open>frag\<close> or \<^verbatim>\<open>vert\<close> without the dot.
\<close>

theorem suffix_decides_pipeline:
  assumes "apply_settings ev (erase_status status_key v) p = (v2, p2)"
    and "\<not> py_eq_int (settings v2 ''glsv_enabled'') 0"
    and "is_glsl_or_essl v2 = Inr True"
    and "file_name v2 = Some name"
  shows "((\<exists>stem. name = stem @ ''.frag'' \<or> name = stem @ ''.vert'') \<longrightarrow>
            trace (run_validator ev v p) = fst (validate_contents ev v2) \<and>
            (\<exists>tr. trace (run_validator ev v p) = Popen (popen_call ev v2 name) # tr) \<and>
            (\<forall>errs. snd (validate_contents ev v2) = Inr errs \<longrightarrow>
               errors (plugin_after (run_validator ev v p)) = Some errs \<and>
               regions (view_after (run_validator ev v p)) regions_key =
                 Some (map region errs))) \<and>
         (\<not> (\<exists>stem. name = stem @ ''frag'' \<or> name = stem @ ''vert'' \<or>
                     name = stem @ ''frag'' @ [newline] \<or> name = stem @ ''vert'' @ [newline]) \<longrightarrow>
            status (view_after (run_validator ev v p)) status_key = Some suffix_message \<and>
            trace (run_validator ev v p) = [] \<and>
            raised (run_validator ev v p) = None \<and>
            errors (plugin_after (run_validator ev v p)) = errors p)"
proof -
  have run: "trace (run_validator ev v p) = fst (validate_contents ev v2) \<and>
            (\<exists>tr. trace (run_validator ev v p) = Popen (popen_call ev v2 name) # tr) \<and>
            (\<forall>errs. snd (validate_contents ev v2) = Inr errs \<longrightarrow>
               errors (plugin_after (run_validator ev v p)) = Some errs \<and>
               regions (view_after (run_validator ev v p)) regions_key =
                 Some (map region errs))"
    if "\<exists>stem. name = stem @ ''.frag'' \<or> name = stem @ ''.vert''"
  proof -
    from that have ok: "search_frag_vert name" by (auto intro: search_frag_vert_dotted)
    obtain tr r where vc: "validate_contents ev v2 = (tr, r)"
      by (cases "validate_contents ev v2")
    from validate_contents_trace[OF assms(4), of ev] vc
    obtain tr' where tr': "tr = Popen (popen_call ev v2 name) # tr'" by auto
    show ?thesis
      unfolding run_validator_pipeline[OF assms ok] vc
      using tr' by (cases r) (simp_all add: show_errors_def add_regions_def)
  qed
  have skip: "status (view_after (run_validator ev v p)) status_key = Some suffix_message \<and>
            trace (run_validator ev v p) = [] \<and>
            raised (run_validator ev v p) = None \<and>
            errors (plugin_after (run_validator ev v p)) = errors p"
    if "\<not> (\<exists>stem. name = stem @ ''frag'' \<or> name = stem @ ''vert'' \<or>
                     name = stem @ ''frag'' @ [newline] \<or> name = stem @ ''vert'' @ [newline])"
  proof -
    from that have no: "\<not> search_frag_vert name"
      using search_frag_vert_iff[of name] by blast
    from apply_settings_plugin[of ev "erase_status status_key v" p] assms(1)
    have "errors p2 = errors p" by simp
    then show ?thesis
      unfolding run_validator_wrong_suffix[OF assms no] by simp
  qed
  from run skip show ?thesis by blast
qed

text \<open>
  The specification's two files: \<^verbatim>\<open>a.frag\<close> is compiled and its diagnostic stored,
  \<^verbatim>\<open>a.txt\<close> with the same syntax setting gets the status text and no compiler run.
\<close>

theorem suffix_decides_pipeline_witness:
  "trace (run_validator
      (compiler_printing (diagnostic_line ''1'' ''foo'' ''undeclared identifier'' @ [newline]))
      (view_of ''foo();'' ''a.frag'' ''GLSL'') fresh_plugin) =
     [Popen \<lparr>args = ''./essl_to_glsl -s=w a.frag'', cwd = ''/Packages/GLShaderValidator/'',
             stdout_pipe = True, stderr_to_stdout = True, shell = True\<rparr>] \<and>
   errors (plugin_after (run_validator
      (compiler_printing (diagnostic_line ''1'' ''foo'' ''undeclared identifier'' @ [newline]))
      (view_of ''foo();'' ''a.frag'' ''GLSL'') fresh_plugin)) =
     Some [\<lparr>region = Region 0 3, message = ''undeclared identifier''\<rparr>] \<and>
   status (view_after (run_validator
      (compiler_printing (diagnostic_line ''1'' ''foo'' ''undeclared identifier'' @ [newline]))
      (view_of ''foo();'' ''a.txt'' ''GLSL'') fresh_plugin)) status_key =
     Some ''File name must end in .frag or .vert'' \<and>
   trace (run_validator
      (compiler_printing (diagnostic_line ''1'' ''foo'' ''undeclared identifier'' @ [newline]))
      (view_of ''foo();'' ''a.txt'' ''GLSL'') fresh_plugin) = []"
proof -
  let ?ev = "compiler_printing (diagnostic_line ''1'' ''foo'' ''undeclared identifier'' @ [newline])"
  let ?a = "view_of ''foo();'' ''a.frag'' ''GLSL''"
  let ?t = "view_of ''foo();'' ''a.txt'' ''GLSL''"
  define a2 where "a2 = fst (apply_settings ?ev (erase_status status_key ?a) fresh_plugin)"
  define pa where "pa = snd (apply_settings ?ev (erase_status status_key ?a) fresh_plugin)"
  define t2 where "t2 = fst (apply_settings ?ev (erase_status status_key ?t) fresh_plugin)"
  define pt where "pt = snd (apply_settings ?ev (erase_status status_key ?t) fresh_plugin)"
  have a1: "apply_settings ?ev (erase_status status_key ?a) fresh_plugin = (a2, pa)"
    by (simp add: a2_def pa_def)
  have t1: "apply_settings ?ev (erase_status status_key ?t) fresh_plugin = (t2, pt)"
    by (simp add: t2_def pt_def)
  have a_enabled: "\<not> py_eq_int (settings a2 ''glsv_enabled'') 0"
    by (simp add: a2_def handler_defs example_defs)
  have t_enabled: "\<not> py_eq_int (settings t2 ''glsv_enabled'') 0"
    by (simp add: t2_def handler_defs example_defs)
  have a_shader: "is_glsl_or_essl a2 = Inr True"
    by (simp add: a2_def handler_defs example_defs search_defs)
  have t_shader: "is_glsl_or_essl t2 = Inr True"
    by (simp add: t2_def handler_defs example_defs search_defs)
  have a_name: "file_name a2 = Some ''a.frag''"
    by (simp add: a2_def handler_defs example_defs)
  have t_name: "file_name t2 = Some ''a.txt''"
    by (simp add: t2_def handler_defs example_defs)
  have a_suffix: "\<exists>stem. ''a.frag'' = stem @ ''.frag'' \<or> ''a.frag'' = stem @ ''.vert''"
    by (rule exI[of _ "''a''"]) simp
  have "\<not> search_frag_vert ''a.txt''"
    by (simp add: search_frag_vert_def newline_def)
  then have t_suffix: "\<not> (\<exists>stem. ''a.txt'' = stem @ ''frag'' \<or> ''a.txt'' = stem @ ''vert'' \<or>
       ''a.txt'' = stem @ ''frag'' @ [newline] \<or> ''a.txt'' = stem @ ''vert'' @ [newline])"
    using search_frag_vert_iff[of "''a.txt''"] by blast
  have vc: "validate_contents ?ev a2 =
     ([Popen \<lparr>args = ''./essl_to_glsl -s=w a.frag'', cwd = ''/Packages/GLShaderValidator/'',
             stdout_pipe = True, stderr_to_stdout = True, shell = True\<rparr>],
      Inr [\<lparr>region = Region 0 3, message = ''undeclared identifier''\<rparr>])"
    by (simp add: a2_def handler_defs validate_contents_def popen_call_def specCmd_def
        example_defs parse_defs string_defs search_defs)
  from suffix_decides_pipeline[OF a1 a_enabled a_shader a_name] a_suffix vc
  have one: "trace (run_validator ?ev ?a fresh_plugin) =
       [Popen \<lparr>args = ''./essl_to_glsl -s=w a.frag'', cwd = ''/Packages/GLShaderValidator/'',
               stdout_pipe = True, stderr_to_stdout = True, shell = True\<rparr>] \<and>
     errors (plugin_after (run_validator ?ev ?a fresh_plugin)) =
       Some [\<lparr>region = Region 0 3, message = ''undeclared identifier''\<rparr>]"
    by simp
  from suffix_decides_pipeline[OF t1 t_enabled t_shader t_name] t_suffix
  have two: "status (view_after (run_validator ?ev ?t fresh_plugin)) status_key =
       Some suffix_message \<and> trace (run_validator ?ev ?t fresh_plugin) = []"
    by blast
  from one two show ?thesis by (simp add: suffix_message_def)
qed

text \<open>
  The claim as stated fails on a shader file \<^verbatim>\<open>a.frag\<close> when the settings file sets
  \<^verbatim>\<open>glsv_enabled\<close> to 0: the document is recognized as shader source and its name ends
  in \<^verbatim>\<open>.frag\<close>, yet nothing is compiled; and \<^verbatim>\<open>a.txt\<close> then gets no status text.
\<close>

theorem suffix_counterexample:
  "is_glsl_or_essl (view_of ''foo();'' ''a.frag'' ''GLSL'') = Inr True \<and>
   trace (run_validator
      ((compiler_printing [])
         \<lparr>load_settings := (\<lambda>file k. if k = ''glsv_enabled'' then SInt 0 else SNone)\<rparr>)
      (view_of ''foo();'' ''a.frag'' ''GLSL'') fresh_plugin) = [] \<and>
   errors (plugin_after (run_validator
      ((compiler_printing [])
         \<lparr>load_settings := (\<lambda>file k. if k = ''glsv_enabled'' then SInt 0 else SNone)\<rparr>)
      (view_of ''foo();'' ''a.frag'' ''GLSL'') fresh_plugin)) = None \<and>
   status (view_after (run_validator
      ((compiler_printing [])
         \<lparr>load_settings := (\<lambda>file k. if k = ''glsv_enabled'' then SInt 0 else SNone)\<rparr>)
      (view_of ''foo();'' ''a.txt'' ''GLSL'') fresh_plugin)) status_key = None"
  by (simp add: handler_defs example_defs search_defs)

text \<open>
  The pattern \<^verbatim>\<open>(frag|vert)$\<close> has no dot: a shader buffer saved as \<^verbatim>\<open>notafrag\<close> is
  compiled, against the comment above the check and the status text of the other branch.
\<close>

lemma suffix_without_dot_is_compiled:
  "trace (run_validator (compiler_printing [])
      (view_of ''foo();'' ''notafrag'' ''GLSL'') fresh_plugin) =
     [Popen \<lparr>args = ''./essl_to_glsl -s=w notafrag'', cwd = ''/Packages/GLShaderValidator/'',
             stdout_pipe = True, stderr_to_stdout = True, shell = True\<rparr>]"
  by (simp add: handler_defs validate_contents_def popen_call_def specCmd_def
      example_defs search_defs newline_def)

subsection \<open>C6: one list of diagnostics for all views\<close>

text \<open>
  Claim C6, as amended. The diagnostics are not kept per document: the listener object
  has one list. A validation pass on a document either leaves that list as it was or
  replaces it by what \<^verbatim>\<open>validate_contents\<close> returned for that document, and a selection
  change in any view recognized as shader source, the validated one or another, is
  answered from that list. Only the displayed regions are stored with the view that was
  validated.
\<close>

theorem diagnostics_shared_by_all_views:
  assumes "is_glsl_or_essl w = Inr True"
  shows "(errors (plugin_after (run_validator ev v p)) = errors p \<or>
          (\<exists>errs. snd (validate_contents ev
                     (fst (apply_settings ev (erase_status status_key v) p))) = Inr errs \<and>
                  errors (plugin_after (run_validator ev v p)) = Some errs)) \<and>
         (\<forall>errs. errors (plugin_after (run_validator ev v p)) = Some errs \<longrightarrow>
            status (view_after
              (on_selection_modified w (plugin_after (run_validator ev v p)))) status_key =
              covering_message errs (sel w))"
proof -
  have "status (view_after
          (on_selection_modified w (plugin_after (run_validator ev v p)))) status_key =
        covering_message errs (sel w)"
    if "errors (plugin_after (run_validator ev v p)) = Some errs" for errs
    using on_selection_modified_status[OF assms, of "plugin_after (run_validator ev v p)"] that
    by simp
  with run_validator_errors[of ev v p] show ?thesis by blast
qed

text \<open>
  After \<^verbatim>\<open>a.frag\<close> is validated, the cursor in another shader view, \<^verbatim>\<open>b.vert\<close>, is
  answered with the diagnostic of \<^verbatim>\<open>a.frag\<close>.
\<close>

theorem diagnostics_shared_by_all_views_witness:
  "status (view_after
     (on_selection_modified
        ((view_of ''bar();'' ''b.vert'' ''GLSL'')\<lparr>sel := [Region 1 1]\<rparr>)
        (plugin_after (run_validator
           (compiler_printing
              (diagnostic_line ''1'' ''foo'' ''undeclared identifier'' @ [newline]))
           (view_of ''foo();'' ''a.frag'' ''GLSL'') fresh_plugin)))) status_key =
   Some ''undeclared identifier''"
proof -
  let ?ev = "compiler_printing (diagnostic_line ''1'' ''foo'' ''undeclared identifier'' @ [newline])"
  let ?a = "view_of ''foo();'' ''a.frag'' ''GLSL''"
  let ?b = "(view_of ''bar();'' ''b.vert'' ''GLSL'')\<lparr>sel := [Region 1 1]\<rparr>"
  let ?d = "\<lparr>region = Region 0 3, message = ''undeclared identifier''\<rparr>"
  have g: "is_glsl_or_essl ?b = Inr True"
    by (simp add: is_glsl_or_essl_def view_of_def search_defs)
  have e: "errors (plugin_after (run_validator ?ev ?a fresh_plugin)) = Some [?d]"
    by (simp add: handler_defs validate_contents_def popen_call_def specCmd_def
        example_defs parse_defs string_defs search_defs)
  have c: "covering_message [?d] (sel ?b) = Some ''undeclared identifier''"
    by (simp add: region_contains_def contains_point_def region_begin_def region_end_def)
  from diagnostics_shared_by_all_views[OF g, of ?ev ?a fresh_plugin] e c
  show ?thesis by simp
qed

text \<open>
  The claim as stated fails for two open documents. \<^verbatim>\<open>a.frag\<close> is loaded and validated;
  then \<^verbatim>\<open>b.txt\<close>, a shader buffer under a name the compiler does not accept, is
  activated, which starts no compiler run; then the cursor moves in \<^verbatim>\<open>b.txt\<close>. The
  status text shown there is the diagnostic of \<^verbatim>\<open>a.frag\<close>.
\<close>

theorem diagnostics_isolation_counterexample:
  "trace (on_activated
      (compiler_printing (diagnostic_line ''1'' ''foo'' ''undeclared identifier'' @ [newline]))
      ((view_of ''bar();'' ''b.txt'' ''GLSL'')\<lparr>sel := [Region 1 1]\<rparr>)
      (plugin_after (on_load
         (compiler_printing (diagnostic_line ''1'' ''foo'' ''undeclared identifier'' @ [newline]))
         (view_of ''foo();'' ''a.frag'' ''GLSL'') fresh_plugin))) = [] \<and>
   status (view_after
     (on_selection_modified
        (view_after (on_activated
           (compiler_printing (diagnostic_line ''1'' ''foo'' ''undeclared identifier'' @ [newline]))
           ((view_of ''bar();'' ''b.txt'' ''GLSL'')\<lparr>sel := [Region 1 1]\<rparr>)
           (plugin_after (on_load
              (compiler_printing (diagnostic_line ''1'' ''foo'' ''undeclared identifier'' @ [newline]))
              (view_of ''foo();'' ''a.frag'' ''GLSL'') fresh_plugin))))
        (plugin_after (on_activated
           (compiler_printing (diagnostic_line ''1'' ''foo'' ''undeclared identifier'' @ [newline]))
           ((view_of ''bar();'' ''b.txt'' ''GLSL'')\<lparr>sel := [Region 1 1]\<rparr>)
           (plugin_after (on_load
              (compiler_printing (diagnostic_line ''1'' ''foo'' ''undeclared identifier'' @ [newline]))
              (view_of ''foo();'' ''a.frag'' ''GLSL'') fresh_plugin)))))) status_key =
   Some ''undeclared identifier''"
proof -
  let ?ev = "compiler_printing (diagnostic_line ''1'' ''foo'' ''undeclared identifier'' @ [newline])"
  let ?a = "view_of ''foo();'' ''a.frag'' ''GLSL''"
  let ?b = "(view_of ''bar();'' ''b.txt'' ''GLSL'')\<lparr>sel := [Region 1 1]\<rparr>"
  let ?d = "\<lparr>region = Region 0 3, message = ''undeclared identifier''\<rparr>"
  define pA where "pA = plugin_after (on_load ?ev ?a fresh_plugin)"
  have pA: "pA = \<lparr>errors = Some [?d], pluginSettings = Some (\<lambda>k. SNone)\<rparr>"
    by (simp add: pA_def on_load_def handler_defs validate_contents_def popen_call_def specCmd_def
        example_defs parse_defs string_defs search_defs)
  define rB where "rB = on_activated ?ev ?b pA"
  have tr: "trace rB = []"
    by (simp add: rB_def pA on_activated_def handler_defs example_defs search_defs newline_def)
  have pl: "plugin_after rB = pA"
    by (simp add: rB_def pA on_activated_def handler_defs example_defs search_defs newline_def)
  have gl: "is_glsl_or_essl (view_after rB) = Inr True"
    by (simp add: rB_def pA on_activated_def handler_defs example_defs search_defs newline_def)
  have sl: "sel (view_after rB) = [Region 1 1]"
    by (simp add: rB_def pA on_activated_def handler_defs example_defs search_defs newline_def)
  have "status (view_after (on_selection_modified (view_after rB) (plugin_after rB))) status_key =
      Some ''undeclared identifier''"
    unfolding on_selection_modified_status[OF gl] pl sl
    by (simp add: pA region_contains_def contains_point_def region_begin_def region_end_def)
  with tr show ?thesis unfolding rB_def pA_def by simp
qed

end
